theory Spec2Isabelle
  imports
    Complex_Main
    "HOL-Library.Multiset"
    "HOL-Library.List_Lexorder"
    "HOL-Library.Char_ord"
    "HOL-Library.Monad_Syntax"
begin

section \<open>Run-time types and values\<close>

text \<open>
  The table view of \<^verbatim>\<open>giv/structtableview.go\<close> works on a pointer to a slice of
  structs through package \<^verbatim>\<open>reflect\<close>. This section holds the part of \<^verbatim>\<open>reflect\<close>
  the view uses: the kinds with their numbering, types, and the values of struct fields.
\<close>

datatype Kind =
    reflect_Invalid | reflect_Bool
  | reflect_Int | reflect_Int8 | reflect_Int16 | reflect_Int32 | reflect_Int64
  | reflect_Uint | reflect_Uint8 | reflect_Uint16 | reflect_Uint32 | reflect_Uint64
  | reflect_Uintptr
  | reflect_Float32 | reflect_Float64 | reflect_Complex64 | reflect_Complex128
  | reflect_Array | reflect_Chan | reflect_Func | reflect_Interface | reflect_Map
  | reflect_Ptr | reflect_Slice | reflect_String | reflect_Struct
  | reflect_UnsafePointer

text \<open>The kinds are consecutive constants; the sort dispatch compares them as numbers.\<close>

fun kind_num :: "Kind \<Rightarrow> nat" where
  "kind_num reflect_Invalid = 0"
| "kind_num reflect_Bool = 1"
| "kind_num reflect_Int = 2"
| "kind_num reflect_Int8 = 3"
| "kind_num reflect_Int16 = 4"
| "kind_num reflect_Int32 = 5"
| "kind_num reflect_Int64 = 6"
| "kind_num reflect_Uint = 7"
| "kind_num reflect_Uint8 = 8"
| "kind_num reflect_Uint16 = 9"
| "kind_num reflect_Uint32 = 10"
| "kind_num reflect_Uint64 = 11"
| "kind_num reflect_Uintptr = 12"
| "kind_num reflect_Float32 = 13"
| "kind_num reflect_Float64 = 14"
| "kind_num reflect_Complex64 = 15"
| "kind_num reflect_Complex128 = 16"
| "kind_num reflect_Array = 17"
| "kind_num reflect_Chan = 18"
| "kind_num reflect_Func = 19"
| "kind_num reflect_Interface = 20"
| "kind_num reflect_Map = 21"
| "kind_num reflect_Ptr = 22"
| "kind_num reflect_Slice = 23"
| "kind_num reflect_String = 24"
| "kind_num reflect_Struct = 25"
| "kind_num reflect_UnsafePointer = 26"

text \<open>
  A type is a pointer type, a slice type, a struct type with its full name and its
  fields (name and type, in declaration order), or a type of any other kind with its
  full name.
\<close>

datatype Type =
    PtrTo Type
  | SliceOf Type
  | StructOf string "(string \<times> Type) list"
  | Basic Kind string

fun KindOf :: "Type \<Rightarrow> Kind" where
  "KindOf (PtrTo t) = reflect_Ptr"
| "KindOf (SliceOf t) = reflect_Slice"
| "KindOf (StructOf n fs) = reflect_Struct"
| "KindOf (Basic k n) = k"

text \<open>\<^verbatim>\<open>Type.Elem\<close> panics on a type that has no element type; a panic is \<open>None\<close>.\<close>

fun Elem :: "Type \<Rightarrow> Type option" where
  "Elem (PtrTo t) = Some t"
| "Elem (SliceOf t) = Some t"
| "Elem (StructOf n fs) = None"
| "Elem (Basic k n) = None"

text \<open>\<^verbatim>\<open>kit.NonPtrType\<close> removes every pointer level.\<close>

fun NonPtrType :: "Type \<Rightarrow> Type" where
  "NonPtrType (PtrTo t) = NonPtrType t"
| "NonPtrType (SliceOf t) = SliceOf t"
| "NonPtrType (StructOf n fs) = StructOf n fs"
| "NonPtrType (Basic k n) = Basic k n"

text \<open>\<^verbatim>\<open>Type.NumField\<close> and \<^verbatim>\<open>Type.Field\<close> panic on a type that is not a struct.\<close>

fun Fields :: "Type \<Rightarrow> (string \<times> Type) list option" where
  "Fields (StructOf n fs) = Some fs"
| "Fields (PtrTo t) = None"
| "Fields (SliceOf t) = None"
| "Fields (Basic k n) = None"

definition NumField :: "Type \<Rightarrow> nat option" where
  "NumField t = map_option length (Fields t)"

text \<open>
  \<^verbatim>\<open>vk == reflect.Struct && kit.FullTypeName(fld.Type) == nm\<close>: the name is read
  only when the kind is a struct's.
\<close>

fun StructNamed :: "Type \<Rightarrow> string \<Rightarrow> bool" where
  "StructNamed (StructOf n fs) nm = (n = nm)"
| "StructNamed (PtrTo t) nm = False"
| "StructNamed (SliceOf t) nm = False"
| "StructNamed (Basic k n) nm = False"

text \<open>
  A \<^verbatim>\<open>float64\<close> is kept as far as \<^verbatim>\<open><\<close> and \<^verbatim>\<open>>\<close> read it: a number or NaN. Every
  comparison with NaN is false.
\<close>

datatype float64 = NaN | F64 real

fun flt :: "float64 \<Rightarrow> float64 \<Rightarrow> bool" where
  "flt (F64 a) (F64 b) = (a < b)"
| "flt NaN y = False"
| "flt (F64 a) NaN = False"

text \<open>
  The value of a struct field, with the accessors of \<^verbatim>\<open>reflect.Value\<close> as selectors.
  A time stamp (\<^verbatim>\<open>time.Time\<close>, \<^verbatim>\<open>FileTime\<close>) is its instant; a value of any other kind
  is opaque. A struct value is the list of its field values, a slice the list of its
  elements.
\<close>

datatype Value =
    IntV (vInt: int)
  | UintV (vUint: nat)
  | FloatV (vFloat: float64)
  | StringV (vString: string)
  | TimeV (vTime: int)
  | OtherV nat

type_synonym Stru = "Value list"

definition Before :: "int \<Rightarrow> int \<Rightarrow> bool" where
  "Before t u = (t < u)"

text \<open>The zero value of a type, as \<^verbatim>\<open>reflect.New(typ).Elem()\<close> holds it.\<close>

fun ZeroValue :: "Type \<Rightarrow> Value" where
  "ZeroValue (Basic k n) =
     (if kind_num reflect_Int \<le> kind_num k \<and> kind_num k \<le> kind_num reflect_Int64 then IntV 0
      else if kind_num reflect_Uint \<le> kind_num k \<and> kind_num k \<le> kind_num reflect_Uintptr then UintV 0
      else if kind_num reflect_Float32 \<le> kind_num k \<and> kind_num k \<le> kind_num reflect_Float64 then FloatV (F64 0)
      else if k = reflect_String then StringV []
      else OtherV 0)"
| "ZeroValue (StructOf n fs) =
     (if n = ''gi.FileTime'' \<or> n = ''time.Time'' then TimeV 0 else OtherV 0)"
| "ZeroValue (PtrTo t) = OtherV 0"
| "ZeroValue (SliceOf t) = OtherV 0"

definition ZeroStru :: "(string \<times> Type) list \<Rightarrow> Stru" where
  "ZeroStru fs = map (\<lambda>f. ZeroValue (snd f)) fs"

section \<open>Slices\<close>

text \<open>
  \<^verbatim>\<open>Value.Slice(i, j)\<close> panics unless \<open>0 \<le> i \<le> j \<le> cap\<close>; the capacity is taken
  to be the length. \<^verbatim>\<open>reflect.Copy(dst, src)\<close> on two windows of one array copies
  \<open>min (len dst) (len src)\<close> elements as \<^verbatim>\<open>memmove\<close> does.
\<close>

definition SliceWin :: "'a list \<Rightarrow> int \<Rightarrow> int \<Rightarrow> (nat \<times> nat) option" where
  "SliceWin xs i j =
     (if i < 0 \<or> j < i \<or> int (length xs) < j then None else Some (nat i, nat j))"

definition Copy :: "'a list \<Rightarrow> nat \<times> nat \<Rightarrow> nat \<times> nat \<Rightarrow> 'a list" where
  "Copy xs dst src =
     (let n = min (snd dst - fst dst) (snd src - fst src)
      in take (fst dst) xs @ take n (drop (fst src) xs) @ drop (fst dst + n) xs)"

section \<open>Sorting\<close>

text \<open>
  \<^verbatim>\<open>sort.Slice\<close> belongs to the standard library; the sort engine receives it as the
  parameter \<open>srt\<close>. Its comparison reads the elements at two positions, which is a
  relation on elements here.
\<close>

type_synonym 'a sorter = "('a \<Rightarrow> 'a \<Rightarrow> bool) \<Rightarrow> 'a list \<Rightarrow> 'a list"

datatype error =
    FieldIndexOutOfRange int nat
  | UnableToSort Type

text \<open>
  The comparison closures of \<^verbatim>\<open>SortStructSlice\<close>, one for each case of its switch;
  the two cases on a time stamp compare alike. The accessors of \<^verbatim>\<open>reflect.Value\<close> and
  the type assertions of the closures succeed on a field of the kind the switch found,
  which is all the closures are called on.
\<close>

definition lessInt :: "nat \<Rightarrow> bool \<Rightarrow> Stru \<Rightarrow> Stru \<Rightarrow> bool" where
  "lessInt fldIdx ascending ival jval =
     (let iv = vInt (ival ! fldIdx); jv = vInt (jval ! fldIdx)
      in if ascending then iv < jv else iv > jv)"

definition lessUint :: "nat \<Rightarrow> bool \<Rightarrow> Stru \<Rightarrow> Stru \<Rightarrow> bool" where
  "lessUint fldIdx ascending ival jval =
     (let iv = vUint (ival ! fldIdx); jv = vUint (jval ! fldIdx)
      in if ascending then iv < jv else iv > jv)"

definition lessFloat :: "nat \<Rightarrow> bool \<Rightarrow> Stru \<Rightarrow> Stru \<Rightarrow> bool" where
  "lessFloat fldIdx ascending ival jval =
     (let iv = vFloat (ival ! fldIdx); jv = vFloat (jval ! fldIdx)
      in if ascending then flt iv jv else flt jv iv)"

definition lessString :: "nat \<Rightarrow> bool \<Rightarrow> Stru \<Rightarrow> Stru \<Rightarrow> bool" where
  "lessString fldIdx ascending ival jval =
     (let iv = vString (ival ! fldIdx); jv = vString (jval ! fldIdx)
      in if ascending then iv < jv else iv > jv)"

definition lessTime :: "nat \<Rightarrow> bool \<Rightarrow> Stru \<Rightarrow> Stru \<Rightarrow> bool" where
  "lessTime fldIdx ascending ival jval =
     (let iv = vTime (ival ! fldIdx); jv = vTime (jval ! fldIdx)
      in if ascending then Before iv jv else Before jv iv)"

text \<open>
  The switch of \<^verbatim>\<open>SortStructSlice\<close> on the kind of the field's type: the closure to
  sort with, or \<open>None\<close> in the default case.
\<close>

definition sortLess :: "Type \<Rightarrow> nat \<Rightarrow> bool \<Rightarrow> (Stru \<Rightarrow> Stru \<Rightarrow> bool) option" where
  "sortLess ftyp fldIdx ascending =
     (let vk = KindOf ftyp in
      if kind_num reflect_Int \<le> kind_num vk \<and> kind_num vk \<le> kind_num reflect_Int64
        then Some (lessInt fldIdx ascending)
      else if kind_num reflect_Uint \<le> kind_num vk \<and> kind_num vk \<le> kind_num reflect_Uint64
        then Some (lessUint fldIdx ascending)
      else if kind_num reflect_Float32 \<le> kind_num vk \<and> kind_num vk \<le> kind_num reflect_Float64
        then Some (lessFloat fldIdx ascending)
      else if vk = reflect_String
        then Some (lessString fldIdx ascending)
      else if StructNamed ftyp ''gi.FileTime''
        then Some (lessTime fldIdx ascending)
      else if StructNamed ftyp ''time.Time''
        then Some (lessTime fldIdx ascending)
      else None)"

text \<open>
  \<^verbatim>\<open>SortStructSlice(struSlice, fldIdx, ascending)\<close>: \<open>typ\<close> is the type of
  \<^verbatim>\<open>struSlice\<close> and \<open>xs\<close> the slice it points to. The result is the returned error
  (\<open>None\<close> for \<^verbatim>\<open>nil\<close>) with the slice after the call; the outer \<open>None\<close> is a panic
  of the reflection calls.
\<close>

definition SortStructSlice ::
  "Stru sorter \<Rightarrow> Type \<Rightarrow> Stru list \<Rightarrow> int \<Rightarrow> bool \<Rightarrow> (error option \<times> Stru list) option" where
  "SortStructSlice srt typ xs fldIdx ascending =
     do {
       slTyp \<leftarrow> Elem typ;
       elTyp \<leftarrow> Elem slTyp;
       let struTyp = NonPtrType elTyp;
       flds \<leftarrow> Fields struTyp;
       if fldIdx < 0 \<or> fldIdx \<ge> int (length flds)
       then Some (Some (FieldIndexOutOfRange fldIdx (length flds)), xs)
       else
         (let fld = flds ! nat fldIdx in
          case sortLess (snd fld) (nat fldIdx) ascending of
            Some lessf \<Rightarrow> Some (None, srt lessf xs)
          | None \<Rightarrow> Some (Some (UnableToSort (snd fld)), xs))
     }"

section \<open>The table view\<close>

text \<open>
  An interface value is \<^verbatim>\<open>nil\<close> or a dynamic type with a value; for a pointer the
  value is its address, and address 0 is the nil pointer. Two interface values are
  equal when type and value are.
\<close>

datatype iface = INil | Iface Type nat

text \<open>
  \<^verbatim>\<open>reflect.TypeOf\<close> of the nil interface is the nil type, on which every method call
  panics: \<open>None\<close>.
\<close>

fun TypeOf :: "iface \<Rightarrow> Type option" where
  "TypeOf INil = None"
| "TypeOf (Iface t a) = Some t"

text \<open>\<^verbatim>\<open>kit.IfaceIsNil\<close>: the interface is nil, or it holds a nil pointer.\<close>

fun IfaceIsNil :: "iface \<Rightarrow> bool" where
  "IfaceIsNil INil = True"
| "IfaceIsNil (Iface t a) = (KindOf t = reflect_Ptr \<and> a = 0)"

text \<open>
  Widgets of the grid. A name is kept by its parts rather than as the string
  \<^verbatim>\<open>fmt.Sprintf\<close> builds from them, and so is the text of an index label.
\<close>

datatype WType = KiT_Label | KiT_Action | KiT_Value nat

datatype WName =
    head_idx | head_fld string | head_add | head_del
  | index_row nat | value_cell nat nat | add_row nat | del_row nat

datatype WText = NoText | Str string | IdxTxt nat

record Widget =
  WTyp :: WType
  Nm :: WName
  Text :: WText
  Icon :: string
  Data :: int
  Selected :: bool
  WInactive :: bool
  stv_index :: "int option"
  Shown :: "Value option"

definition NewWidget :: "WType \<Rightarrow> WName \<Rightarrow> Widget" where
  "NewWidget t n =
     \<lparr>WTyp = t, Nm = n, Text = NoText, Icon = [], Data = 0, Selected = False,
      WInactive = False, stv_index = None, Shown = None\<rparr>"

text \<open>
  A value view bound to one cell: the widget type it asks for and the field (row and
  field index) it was bound to by \<^verbatim>\<open>SetStructValue\<close>.
\<close>

record ValueView =
  WidgetType :: nat
  vvRow :: nat
  vvFld :: nat

text \<open>
  The struct-grid frame: without children before it is configured, then with the
  children of the header layout and the \<^verbatim>\<open>Kids\<close> of the grid frame, where a slot is
  \<^verbatim>\<open>nil\<close> until it is filled, and the grid's \<^verbatim>\<open>columns\<close> property.
\<close>

datatype SliceGridW =
    GridEmpty
  | GridParts (Header: "Widget list") (Kids: "Widget option list") (Columns: nat)

datatype Signal = SelectSig int | ViewSig

text \<open>
  The fields of \<^verbatim>\<open>StructTableView\<close>, and what its methods reach through it: the
  inactive flag of the node, the struct-grid child, the Add button of the button box,
  the slices in memory by the address of the pointer to them, the signals emitted so
  far and the number of \<^verbatim>\<open>SaveTmp\<close> calls made on \<^verbatim>\<open>TmpSave\<close>. Update batches,
  re-render marks, layout properties and the log are left to the widget tree.
\<close>

record StructTableView =
  Slice :: iface
  Values :: "ValueView option list list"
  TmpSave :: bool
  SelectedIdx :: int
  SortIdx :: int
  SortDesc :: bool
  builtSlice :: iface
  builtSize :: int
  Inactive :: bool
  StructGrid :: "SliceGridW option"
  AddButton :: bool
  Heap :: "nat \<Rightarrow> Stru list"
  Sigs :: "Signal list"
  SaveTmpCalls :: nat

text \<open>A \<^verbatim>\<open>for\<close> loop over indices whose body may panic.\<close>

fun forM :: "nat list \<Rightarrow> (nat \<Rightarrow> 's \<Rightarrow> 's option) \<Rightarrow> 's \<Rightarrow> 's option" where
  "forM [] body s = Some s"
| "forM (i # is) body s = (case body i s of None \<Rightarrow> None | Some s' \<Rightarrow> forM is body s')"

text \<open>\<^verbatim>\<open>StructType\<close>: the type of the struct within the slice.\<close>

definition StructType :: "StructTableView \<Rightarrow> Type option" where
  "StructType sv =
     do {
       t \<leftarrow> TypeOf (Slice sv);
       slTyp \<leftarrow> Elem t;
       elTyp \<leftarrow> Elem slTyp;
       Some (NonPtrType elTyp)
     }"

text \<open>
  \<^verbatim>\<open>kit.NonPtrValue(reflect.ValueOf(sv.Slice))\<close>: the slice behind the pointer, with
  its address. The elements are struct values. Any other bound value, and the nil
  pointer, have no slice to read: \<open>None\<close>.
\<close>

fun SliceAddr :: "iface \<Rightarrow> nat option" where
  "SliceAddr (Iface (PtrTo (SliceOf t)) a) = (if a = 0 then None else Some a)"
| "SliceAddr _ = None"

definition SliceValue :: "StructTableView \<Rightarrow> Stru list option" where
  "SliceValue sv = map_option (Heap sv) (SliceAddr (Slice sv))"

text \<open>\<^verbatim>\<open>svl.Elem().Set(v)\<close>: the slice behind the pointer becomes \<open>v\<close>.\<close>

definition SetSliceValue :: "StructTableView \<Rightarrow> Stru list \<Rightarrow> StructTableView option" where
  "SetSliceValue sv v =
     map_option (\<lambda>a. sv\<lparr>Heap := (Heap sv)(a := v)\<rparr>) (SliceAddr (Slice sv))"

text \<open>
  \<^verbatim>\<open>sg.Child(0)\<close> and \<^verbatim>\<open>sg.Child(2)\<close> with their type assertions: the header and the
  grid frame. They panic when the view has no struct-grid or it has no children yet.
\<close>

definition GridOf :: "StructTableView \<Rightarrow> SliceGridW option" where
  "GridOf sv =
     (case StructGrid sv of
        None \<Rightarrow> None
      | Some GridEmpty \<Rightarrow> None
      | Some (GridParts h k c) \<Rightarrow> Some (GridParts h k c))"

definition SetKids :: "StructTableView \<Rightarrow> Widget option list \<Rightarrow> StructTableView" where
  "SetKids sv k =
     (case StructGrid sv of
        Some (GridParts h k0 c) \<Rightarrow> sv\<lparr>StructGrid := Some (GridParts h k c)\<rparr>
      | _ \<Rightarrow> sv)"

definition SetHeader :: "StructTableView \<Rightarrow> Widget list \<Rightarrow> StructTableView" where
  "SetHeader sv h =
     (case StructGrid sv of
        Some (GridParts h0 k c) \<Rightarrow> sv\<lparr>StructGrid := Some (GridParts h k c)\<rparr>
      | _ \<Rightarrow> sv)"

subsection \<open>Selection\<close>

text \<open>
  One turn of the loops of \<^verbatim>\<open>UpdateSelect\<close>: where \<open>seldx\<close> is a valid index of
  \<^verbatim>\<open>Kids\<close>, the widget there gets its selected flag set or cleared; a \<^verbatim>\<open>nil\<close> slot
  fails the type assertion. The row width is \<open>nfld + 1\<close>, that of a browse-mode grid.
  An \<^verbatim>\<open>int\<close> is an integer here; the products of the properties below are indices of
  the table and far from the range of 64 bits.
\<close>

definition SetSelectedAt :: "bool \<Rightarrow> int \<Rightarrow> Widget option list \<Rightarrow> Widget option list option" where
  "SetSelectedAt b seldx kids =
     (if 0 \<le> seldx \<and> seldx < int (length kids)
      then (case kids ! nat seldx of
              None \<Rightarrow> None
            | Some widg \<Rightarrow> Some (kids[nat seldx := Some (widg\<lparr>Selected := b\<rparr>)]))
      else Some kids)"

definition SelectRow :: "bool \<Rightarrow> int \<Rightarrow> nat \<Rightarrow> Widget option list \<Rightarrow> Widget option list option" where
  "SelectRow b idx nfld kids =
     (let nWidgPerRow = int nfld + 1
      in forM [0..<nfld] (\<lambda>fli ks. SetSelectedAt b (idx * nWidgPerRow + 1 + int fli) ks) kids)"

definition UpdateSelect :: "StructTableView \<Rightarrow> int \<Rightarrow> bool \<Rightarrow> StructTableView option" where
  "UpdateSelect sv idx sel =
     do {
       struTyp \<leftarrow> StructType sv;
       nfld \<leftarrow> NumField struTyp;
       sg \<leftarrow> GridOf sv;
       kids1 \<leftarrow> (if SelectedIdx sv \<ge> 0
                  then SelectRow False (SelectedIdx sv) nfld (Kids sg)
                  else Some (Kids sg));
       kids2 \<leftarrow> (if sel then SelectRow True idx nfld kids1 else Some kids1);
       let sv1 = SetKids (sv\<lparr>SelectedIdx := (if sel then idx else -1)\<rparr>) kids2;
       Some (sv1\<lparr>Sigs := Sigs sv1 @ [SelectSig (SelectedIdx sv1)]\<rparr>)
     }"

subsection \<open>Insertion and deletion\<close>

text \<open>
  \<^verbatim>\<open>SliceNewAt\<close> and \<^verbatim>\<open>SliceDelete\<close> have no result; \<open>None\<close> is a panic. The new
  element \<^verbatim>\<open>nval\<close> is the zero value of the element type, a struct. The slice with the
  appended element is a list one longer; \<^verbatim>\<open>reflect.Copy\<close> and \<^verbatim>\<open>Index(i).Set\<close> write
  into it, and \<^verbatim>\<open>svl.Elem().Set\<close> stores the result behind the pointer.
\<close>

definition SliceNewAt :: "StructTableView \<Rightarrow> int \<Rightarrow> StructTableView option" where
  "SliceNewAt sv idx =
     do {
       svnp0 \<leftarrow> SliceValue sv;
       struTyp \<leftarrow> StructType sv;
       flds \<leftarrow> Fields struTyp;
       let nval = ZeroStru flds;
       let sz = int (length svnp0);
       let svnp = svnp0 @ [nval];
       svnp1 \<leftarrow> (if idx \<ge> 0 \<and> idx < sz - 1
                  then do {
                    dst \<leftarrow> SliceWin svnp (idx + 1) (sz + 1);
                    src \<leftarrow> SliceWin svnp idx sz;
                    Some ((Copy svnp dst src)[nat idx := nval])
                  }
                  else Some svnp);
       sv1 \<leftarrow> SetSliceValue sv svnp1;
       let sv2 = (if TmpSave sv1 then sv1\<lparr>SaveTmpCalls := SaveTmpCalls sv1 + 1\<rparr> else sv1);
       Some (sv2\<lparr>Sigs := Sigs sv2 @ [ViewSig]\<rparr>)
     }"

definition SliceDelete :: "StructTableView \<Rightarrow> int \<Rightarrow> StructTableView option" where
  "SliceDelete sv idx =
     do {
       svnp \<leftarrow> SliceValue sv;
       struTyp \<leftarrow> StructType sv;
       flds \<leftarrow> Fields struTyp;
       let nval = ZeroStru flds;
       let sz = int (length svnp);
       dst \<leftarrow> SliceWin svnp idx (sz - 1);
       src \<leftarrow> SliceWin svnp (idx + 1) sz;
       let svnp1 = (Copy svnp dst src)[nat (sz - 1) := nval];
       res \<leftarrow> SliceWin svnp1 0 (sz - 1);
       sv1 \<leftarrow> SetSliceValue sv (take (snd res) svnp1);
       let sv2 = (if TmpSave sv1 then sv1\<lparr>SaveTmpCalls := SaveTmpCalls sv1 + 1\<rparr> else sv1);
       Some (sv2\<lparr>Sigs := Sigs sv2 @ [ViewSig]\<rparr>)
     }"

subsection \<open>Building the grid\<close>

text \<open>
  \<^verbatim>\<open>ToValueView\<close> belongs to the value-view factory; the builder receives it as the
  parameter \<open>tvv\<close>, which gives the widget type of the view for a value, or \<open>None\<close>
  where the factory has no view.

  One cell of \<^verbatim>\<open>ConfigSliceGridRows\<close>, for row \<open>i\<close> and field \<open>fli\<close>, on the value-view
  cache and the \<^verbatim>\<open>Kids\<close>. Indexing \<^verbatim>\<open>Kids\<close> or \<^verbatim>\<open>Values\<close> out of range panics;
  \<^verbatim>\<open>SetChild\<close> at an index out of range changes nothing. \<^verbatim>\<open>ConfigWidget\<close> makes the
  widget show the value of the field. The view has no \<^verbatim>\<open>StyleFunc\<close>. The signal
  connections made here are not state: a selected cell of row \<open>i\<close> calls
  \<^verbatim>\<open>UpdateSelect(i, selected)\<close>, the add action of row \<open>i\<close> calls \<^verbatim>\<open>SliceNewAt(i + 1)\<close>,
  its delete action \<^verbatim>\<open>SliceDelete(i)\<close>, the Add button \<^verbatim>\<open>SliceNewAt(-1)\<close>, and the header
  action of field \<open>fli\<close> calls \<^verbatim>\<open>SortSliceAction(fli)\<close>.
\<close>

definition ConfigCell ::
  "(Value \<Rightarrow> nat option) \<Rightarrow> bool \<Rightarrow> nat \<Rightarrow> Stru \<Rightarrow> nat \<Rightarrow> nat \<Rightarrow>
   ValueView option list list \<times> Widget option list \<Rightarrow>
   (ValueView option list list \<times> Widget option list) option" where
  "ConfigCell tvv inactive nfld stru i fli st =
     (let vals = fst st; kids = snd st;
          ridx = i * (if inactive then 1 + nfld else 1 + nfld + 2);
          fval = stru ! fli
      in case tvv fval of
           None \<Rightarrow> Some st
         | Some vtyp \<Rightarrow>
             (let vv = \<lparr>WidgetType = vtyp, vvRow = i, vvFld = fli\<rparr>;
                  cidx = ridx + 1 + fli
              in if length kids \<le> cidx then None
                 else do {
                   made \<leftarrow> (case kids ! cidx of
                              Some w \<Rightarrow> Some (w, vals)
                            | None \<Rightarrow>
                                if fli < length vals \<and> i < length (vals ! fli)
                                then Some (NewWidget (KiT_Value vtyp) (value_cell fli i),
                                           vals[fli := (vals ! fli)[i := Some vv]])
                                else None);
                   let widg = (fst made)\<lparr>Shown := Some fval\<rparr>;
                   if inactive
                   then Some (snd made,
                              kids[cidx := Some (widg\<lparr>WInactive := True, stv_index := Some (int i),
                                                      Selected := False\<rparr>)])
                   else Some (snd made,
                              (kids[cidx := Some widg])
                                [ridx + 1 + nfld :=
                                   Some ((NewWidget KiT_Action (add_row i))\<lparr>Icon := ''plus'', Data := int i\<rparr>),
                                 ridx + 1 + nfld + 1 :=
                                   Some ((NewWidget KiT_Action (del_row i))\<lparr>Icon := ''minus'', Data := int i\<rparr>)])
                 }))"

text \<open>
  One row: the index label, kept when the slot holds a label and made otherwise, then
  the cells of the fields.
\<close>

definition ConfigRow ::
  "(Value \<Rightarrow> nat option) \<Rightarrow> bool \<Rightarrow> nat \<Rightarrow> Stru list \<Rightarrow> nat \<Rightarrow>
   ValueView option list list \<times> Widget option list \<Rightarrow>
   (ValueView option list list \<times> Widget option list) option" where
  "ConfigRow tvv inactive nfld xs i st =
     (let kids = snd st;
          ridx = i * (if inactive then 1 + nfld else 1 + nfld + 2)
      in if length kids \<le> ridx then None
         else do {
           idxlab \<leftarrow> (case kids ! ridx of
                        Some w \<Rightarrow> (if WTyp w = KiT_Label then Some w else None)
                      | None \<Rightarrow> Some (NewWidget KiT_Label (index_row i)));
           forM [0..<nfld] (ConfigCell tvv inactive nfld (xs ! i) i)
             (fst st, kids[ridx := Some (idxlab\<lparr>Text := IdxTxt i\<rparr>)])
         })"

definition ConfigSliceGridRows ::
  "(Value \<Rightarrow> nat option) \<Rightarrow> StructTableView \<Rightarrow> StructTableView option" where
  "ConfigSliceGridRows tvv sv =
     do {
       xs \<leftarrow> SliceValue sv;
       struTyp \<leftarrow> StructType sv;
       nfld \<leftarrow> NumField struTyp;
       sg \<leftarrow> GridOf sv;
       st \<leftarrow> forM [0..<length xs] (ConfigRow tvv (Inactive sv) nfld xs) (Values sv, Kids sg);
       Some (SetKids (sv\<lparr>Values := fst st\<rparr>) (snd st))
     }"

text \<open>
  \<^verbatim>\<open>ConfigChildren\<close> of the widget tree makes the children of a node follow a list of
  types and names: a child of that type and name is kept, any other is made new.
\<close>

definition ConfigChildren :: "Widget list \<Rightarrow> (WType \<times> WName) list \<Rightarrow> Widget list" where
  "ConfigChildren kids config =
     map (\<lambda>tn. case find (\<lambda>w. WTyp w = fst tn \<and> Nm w = snd tn) kids of
                 Some w \<Rightarrow> w
               | None \<Rightarrow> NewWidget (fst tn) (snd tn)) config"

text \<open>The header of \<^verbatim>\<open>ConfigSliceGrid\<close>: its configuration, then the texts and data.\<close>

definition HeaderConfig :: "bool \<Rightarrow> (string \<times> Type) list \<Rightarrow> (WType \<times> WName) list" where
  "HeaderConfig inactive flds =
     (KiT_Label, head_idx) # map (\<lambda>fld. (KiT_Action, head_fld (fst fld))) flds
       @ (if \<not> inactive then [(KiT_Label, head_add), (KiT_Label, head_del)] else [])"

definition HeaderTexts :: "bool \<Rightarrow> (string \<times> Type) list \<Rightarrow> Widget list \<Rightarrow> Widget list" where
  "HeaderTexts inactive flds sgh =
     (let nfld = length flds;
          h1 = sgh[0 := (sgh ! 0)\<lparr>Text := Str ''Index''\<rparr>];
          h2 = fold (\<lambda>fli h. h[1 + fli := (h ! (1 + fli))\<lparr>Text := Str (fst (flds ! fli)), Data := int fli\<rparr>])
                 [0..<nfld] h1
      in if \<not> inactive
         then h2[nfld + 1 := (h2 ! (nfld + 1))\<lparr>Text := Str ''Add''\<rparr>,
                 nfld + 2 := (h2 ! (nfld + 2))\<lparr>Text := Str ''Del''\<rparr>]
         else h2)"

text \<open>
  \<^verbatim>\<open>SortStructSlice(sv.Slice, sv.SortIdx, !sv.SortDesc)\<close> as the view calls it: the
  returned error is dropped, the slice in memory is the sorted one.
\<close>

definition SortBound :: "Stru sorter \<Rightarrow> StructTableView \<Rightarrow> StructTableView option" where
  "SortBound srt sv =
     do {
       typ \<leftarrow> TypeOf (Slice sv);
       xs \<leftarrow> SliceValue sv;
       r \<leftarrow> SortStructSlice srt typ xs (SortIdx sv) (\<not> SortDesc sv);
       SetSliceValue sv (snd r)
     }"

text \<open>
  The part of \<^verbatim>\<open>ConfigSliceGrid\<close> on the struct-grid \<open>sg\<close>: its children are
  configured, the header follows the fields, and the grid frame gets its \<^verbatim>\<open>columns\<close>
  and new \<^verbatim>\<open>Kids\<close>, all \<^verbatim>\<open>nil\<close>, for \<open>sz\<close> rows.
\<close>

definition ConfigHeader ::
  "StructTableView \<Rightarrow> (string \<times> Type) list \<Rightarrow> nat \<Rightarrow> SliceGridW \<Rightarrow> StructTableView" where
  "ConfigHeader sv flds sz sg =
     (let nfld = length flds;
          nWidgPerRow = (if Inactive sv then 1 + nfld else 1 + nfld + 2);
          sgh0 = (case sg of GridEmpty \<Rightarrow> [] | GridParts h k c \<Rightarrow> h);
          sgh = HeaderTexts (Inactive sv) flds (ConfigChildren sgh0 (HeaderConfig (Inactive sv) flds))
      in sv\<lparr>StructGrid :=
              Some (GridParts sgh (replicate (nWidgPerRow * sz) None)
                      (if Inactive sv then nfld + 1 else nfld + 3))\<rparr>)"

definition ConfigSliceGrid ::
  "Stru sorter \<Rightarrow> (Value \<Rightarrow> nat option) \<Rightarrow> StructTableView \<Rightarrow> StructTableView option" where
  "ConfigSliceGrid srt tvv sv =
     (if IfaceIsNil (Slice sv) then Some sv
      else do {
        mvnp \<leftarrow> SliceValue sv;
        let sz = int (length mvnp);
        if builtSlice sv = Slice sv \<and> builtSize sv = sz then Some sv
        else do {
          let sv1 = sv\<lparr>builtSlice := Slice sv, builtSize := sz, SelectedIdx := -1\<rparr>;
          struTyp \<leftarrow> StructType sv1;
          flds \<leftarrow> Fields struTyp;
          let sv2 = sv1\<lparr>Values := replicate (length flds) (replicate (length mvnp) None)\<rparr>;
          case StructGrid sv2 of
            None \<Rightarrow> Some sv2
          | Some sg \<Rightarrow>
              do {
                let sv3 = ConfigHeader sv2 flds (length mvnp) sg;
                sv4 \<leftarrow> (if SortIdx sv3 \<ge> 0 then SortBound srt sv3 else Some sv3);
                ConfigSliceGridRows tvv sv4
              }
        }
      })"

subsection \<open>Sorting from the header\<close>

text \<open>
  One turn of the loop of \<^verbatim>\<open>SortSliceAction\<close> over the header actions, on the view's
  \<^verbatim>\<open>SortDesc\<close>, the local \<^verbatim>\<open>ascending\<close> and the header. The type assertion panics
  where the header child is missing or is not an action.
\<close>

definition SortHeaderStep ::
  "int \<Rightarrow> int \<Rightarrow> nat \<Rightarrow> bool \<times> bool \<times> Widget list \<Rightarrow> (bool \<times> bool \<times> Widget list) option" where
  "SortHeaderStep fldIdx sortIdx fli st =
     (let desc = fst st; ascending = fst (snd st); sgh = snd (snd st)
      in if length sgh \<le> 1 + fli \<or> WTyp (sgh ! (1 + fli)) \<noteq> KiT_Action then None
         else
           (let hdr = sgh ! (1 + fli)
            in if int fli = fldIdx
               then (let desc1 = (if sortIdx = int fli then \<not> desc else desc);
                         ascending1 = (if sortIdx = int fli then \<not> desc1 else ascending)
                     in Some (desc1, ascending1,
                              sgh[1 + fli := hdr\<lparr>Icon := (if ascending1 then ''widget-wedge-up''
                                                            else ''widget-wedge-down'')\<rparr>]))
               else Some (desc, ascending, sgh[1 + fli := hdr\<lparr>Icon := ''none''\<rparr>])))"

definition SortSliceAction ::
  "Stru sorter \<Rightarrow> (Value \<Rightarrow> nat option) \<Rightarrow> StructTableView \<Rightarrow> int \<Rightarrow> StructTableView option" where
  "SortSliceAction srt tvv sv fldIdx =
     do {
       struTyp \<leftarrow> StructType sv;
       nfld \<leftarrow> NumField struTyp;
       sg \<leftarrow> GridOf sv;
       st \<leftarrow> forM [0..<nfld] (SortHeaderStep fldIdx (SortIdx sv)) (SortDesc sv, True, Header sg);
       let sv1 = SetHeader (sv\<lparr>SortDesc := fst st, SortIdx := fldIdx\<rparr>) (snd (snd st));
       sv2 \<leftarrow> SortBound srt sv1;
       ConfigSliceGridRows tvv sv2
     }"

subsection \<open>Binding a slice\<close>

text \<open>
  \<^verbatim>\<open>StdConfig\<close> gives the view its struct-grid child when it has none, and
  \<^verbatim>\<open>ConfigSliceButtons\<close> the Add button of an active view on a slice that is not nil.
\<close>

definition StdConfig :: "StructTableView \<Rightarrow> StructTableView" where
  "StdConfig sv =
     (case StructGrid sv of None \<Rightarrow> sv\<lparr>StructGrid := Some GridEmpty\<rparr> | Some sg \<Rightarrow> sv)"

definition ConfigSliceButtons :: "StructTableView \<Rightarrow> StructTableView" where
  "ConfigSliceButtons sv =
     (if IfaceIsNil (Slice sv) then sv
      else if Inactive sv then sv
      else sv\<lparr>AddButton := True\<rparr>)"

definition UpdateFromSlice ::
  "Stru sorter \<Rightarrow> (Value \<Rightarrow> nat option) \<Rightarrow> StructTableView \<Rightarrow> StructTableView option" where
  "UpdateFromSlice srt tvv sv =
     map_option ConfigSliceButtons (ConfigSliceGrid srt tvv (StdConfig sv))"

definition SetSlice ::
  "Stru sorter \<Rightarrow> (Value \<Rightarrow> nat option) \<Rightarrow> StructTableView \<Rightarrow> iface \<Rightarrow> bool \<Rightarrow>
   StructTableView option" where
  "SetSlice srt tvv sv sl tmpSave =
     (if Slice sv \<noteq> sl
      then
        (let sv1 = sv\<lparr>SortIdx := -1, SortDesc := False\<rparr>
         in do {
           slpTyp \<leftarrow> TypeOf sl;
           if KindOf slpTyp \<noteq> reflect_Ptr then Some sv1
           else do {
             slTyp \<leftarrow> Elem slpTyp;
             if KindOf slTyp \<noteq> reflect_Slice then Some sv1
             else do {
               let sv2 = sv1\<lparr>Slice := sl\<rparr>;
               struTyp \<leftarrow> StructType sv2;
               if KindOf struTyp \<noteq> reflect_Struct then Some sv2
               else UpdateFromSlice srt tvv (sv2\<lparr>SelectedIdx := -1, TmpSave := tmpSave\<rparr>)
             }
           }
         })
      else UpdateFromSlice srt tvv (sv\<lparr>TmpSave := tmpSave\<rparr>))"

section \<open>Vocabulary of the properties\<close>






text \<open>
  What \<^verbatim>\<open>sort.Slice\<close> promises of its result: the same elements, and in order when the
  comparison is a strict weak ordering of them. It promises nothing about the order of
  elements that compare equal.
\<close>

definition strict_weak_on :: "'a set \<Rightarrow> ('a \<Rightarrow> 'a \<Rightarrow> bool) \<Rightarrow> bool" where
  "strict_weak_on A lt =
     ((\<forall>a\<in>A. \<not> lt a a)
      \<and> (\<forall>a\<in>A. \<forall>b\<in>A. \<forall>c\<in>A. lt a b \<longrightarrow> lt b c \<longrightarrow> lt a c)
      \<and> (\<forall>a\<in>A. \<forall>b\<in>A. \<forall>c\<in>A. \<not> lt a b \<longrightarrow> \<not> lt b c \<longrightarrow> \<not> lt a c))"

definition sort_contract :: "'a sorter \<Rightarrow> bool" where
  "sort_contract srt =
     (\<forall>lt xs. mset (srt lt xs) = mset xs
        \<and> (strict_weak_on (set xs) lt \<longrightarrow> sorted_wrt (\<lambda>a b. \<not> lt b a) (srt lt xs)))"

text \<open>
  The insertion sort of the standard library, which is all \<^verbatim>\<open>sort.Slice\<close> runs on a
  slice of up to six elements: each element in turn moves left past every predecessor
  it is less than. \<open>insertBack\<close> holds the sorted prefix last element first.
\<close>

fun insertBack :: "('a \<Rightarrow> 'a \<Rightarrow> bool) \<Rightarrow> 'a \<Rightarrow> 'a list \<Rightarrow> 'a list" where
  "insertBack lt x [] = [x]"
| "insertBack lt x (y # rs) = (if lt x y then y # insertBack lt x rs else x # y # rs)"

definition insertionSort :: "'a sorter" where
  "insertionSort lt xs = rev (fold (insertBack lt) xs [])"

text \<open>
  The selected flag of a slot of \<^verbatim>\<open>Kids\<close>, the flags of all slots of a view, and the
  flags of a table of \<open>n\<close> slots in which the field cells of row \<open>j\<close>, and no other
  slot, are selected. A row has the index label and \<open>nfld\<close> field cells.
\<close>

definition IsSelected :: "Widget option \<Rightarrow> bool" where
  "IsSelected w = (case w of None \<Rightarrow> False | Some widg \<Rightarrow> Selected widg)"

definition SelectedSlots :: "StructTableView \<Rightarrow> bool list" where
  "SelectedSlots sv = (case GridOf sv of None \<Rightarrow> [] | Some sg \<Rightarrow> map IsSelected (Kids sg))"

definition RowSlots :: "nat \<Rightarrow> nat \<Rightarrow> int \<Rightarrow> bool list" where
  "RowSlots nfld n j =
     map (\<lambda>k. 0 \<le> j \<and> k div (nfld + 1) = nat j \<and> k mod (nfld + 1) \<noteq> 0) [0..<n]"

definition GridComplete :: "StructTableView \<Rightarrow> bool" where
  "GridComplete sv = (case GridOf sv of None \<Rightarrow> False | Some sg \<Rightarrow> list_all (\<lambda>w. w \<noteq> None) (Kids sg))"

text \<open>
  A browse-mode table of \<open>rows\<close> rows on a bound slice of structs with fields \<open>flds\<close>,
  every slot filled, in which no slot outside the selected row is selected.
\<close>

definition BrowseTable :: "StructTableView \<Rightarrow> (string \<times> Type) list \<Rightarrow> nat \<Rightarrow> bool" where
  "BrowseTable sv flds rows =
     (Option.bind (StructType sv) Fields = Some flds
      \<and> GridComplete sv
      \<and> length (SelectedSlots sv) = rows * (length flds + 1)
      \<and> SelectedIdx sv < int rows
      \<and> list_all (\<lambda>p. fst p \<longrightarrow> snd p)
           (zip (SelectedSlots sv) (RowSlots (length flds) (rows * (length flds + 1)) (SelectedIdx sv))))"

text \<open>
  The record type and the sequence of the concrete scenario, \<^verbatim>\<open>{ID int, Name string,
  Score float}\<close> with \<^verbatim>\<open>[{1,"b",3.0},{2,"a",1.0}]\<close>, in a view bound to the pointer at
  address 1, and a value-view factory with one widget type for every value.
\<close>

definition demoFields :: "(string \<times> Type) list" where
  "demoFields =
     [(''ID'', Basic reflect_Int ''int''), (''Name'', Basic reflect_String ''string''),
      (''Score'', Basic reflect_Float64 ''float64'')]"

definition demoSlice :: "Stru list" where
  "demoSlice =
     [[IntV 1, StringV ''b'', FloatV (F64 3)], [IntV 2, StringV ''a'', FloatV (F64 1)]]"

definition demoType :: Type where
  "demoType = PtrTo (SliceOf (StructOf ''main.Rec'' demoFields))"

definition demoView :: StructTableView where
  "demoView =
     \<lparr>Slice = Iface demoType 1, Values = [], TmpSave = False, SelectedIdx = -1, SortIdx = -1,
      SortDesc = False, builtSlice = INil, builtSize = 0, Inactive = False, StructGrid = None,
      AddButton = False, Heap = (\<lambda>a. if a = 1 then demoSlice else []), Sigs = [],
      SaveTmpCalls = 0\<rparr>"

definition demoToValueView :: "Value \<Rightarrow> nat option" where
  "demoToValueView v = Some 0"





text \<open>
  A browse-mode view of the sequence of the concrete scenario after its grid was built,
  with row 0 selected: two rows of an index label and three field cells.
\<close>

definition browseLabel :: "nat \<Rightarrow> Widget option" where
  "browseLabel i = Some ((NewWidget KiT_Label (index_row i))\<lparr>Text := IdxTxt i\<rparr>)"

definition browseCell :: "nat \<Rightarrow> nat \<Rightarrow> bool \<Rightarrow> Widget option" where
  "browseCell i fli sel =
     Some ((NewWidget (KiT_Value 0) (value_cell fli i))
             \<lparr>Selected := sel, WInactive := True, stv_index := Some (int i)\<rparr>)"

definition browseKids :: "Widget option list" where
  "browseKids =
     [browseLabel 0, browseCell 0 0 True, browseCell 0 1 True, browseCell 0 2 True,
      browseLabel 1, browseCell 1 0 False, browseCell 1 1 False, browseCell 1 2 False]"

definition browseView :: StructTableView where
  "browseView =
     demoView\<lparr>Inactive := True, SelectedIdx := 0, StructGrid := Some (GridParts [] browseKids 4)\<rparr>"

text \<open>
  The shape of the value-view cache and of the \<^verbatim>\<open>Kids\<close> while the rows are built:
  \<open>len\<close> slots, and a cache of \<open>nfld\<close> lists of \<open>sz\<close> entries.
\<close>

definition GridShape ::
  "nat \<Rightarrow> nat \<Rightarrow> nat \<Rightarrow> ValueView option list list \<times> Widget option list \<Rightarrow> bool" where
  "GridShape nfld sz len st =
     (length (snd st) = len \<and> length (fst st) = nfld \<and> (\<forall>f<nfld. length (fst st ! f) = sz))"


text \<open>
  The browse-mode view after its sequence was sorted descending on the first field
  from the header, and the type of a pointer to a slice of integers.
\<close>

definition demoHeader :: "Widget list" where
  "demoHeader =
     [(NewWidget KiT_Label head_idx)\<lparr>Text := Str ''Index''\<rparr>,
      (NewWidget KiT_Action (head_fld ''ID''))\<lparr>Text := Str ''ID'', Icon := ''widget-wedge-down'', Data := 0\<rparr>,
      (NewWidget KiT_Action (head_fld ''Name''))\<lparr>Text := Str ''Name'', Icon := ''none'', Data := 1\<rparr>,
      (NewWidget KiT_Action (head_fld ''Score''))\<lparr>Text := Str ''Score'', Icon := ''none'', Data := 2\<rparr>]"

definition descView :: StructTableView where
  "descView =
     browseView\<lparr>SortIdx := 0, SortDesc := True, builtSlice := Iface demoType 1, builtSize := 2,
                StructGrid := Some (GridParts demoHeader browseKids 4),
                Heap := (\<lambda>a. if a = 1 then rev demoSlice else [])\<rparr>"

definition intSliceType :: Type where
  "intSliceType = PtrTo (SliceOf (Basic reflect_Int ''int''))"

section \<open>Properties\<close>

subsection \<open>The sort engine\<close>



lemma SortStructSlice_result:
  assumes "Elem typ = Some slTyp" and "Elem slTyp = Some elTyp"
    and "NonPtrType elTyp = StructOf n flds"
  shows "SortStructSlice srt typ xs fldIdx ascending =
     (if fldIdx < 0 \<or> int (length flds) \<le> fldIdx
      then Some (Some (FieldIndexOutOfRange fldIdx (length flds)), xs)
      else case sortLess (snd (flds ! nat fldIdx)) (nat fldIdx) ascending of
             Some lessf \<Rightarrow> Some (None, srt lessf xs)
           | None \<Rightarrow> Some (Some (UnableToSort (snd (flds ! nat fldIdx))), xs))"
  using assms by (simp add: SortStructSlice_def Let_def)






subsection \<open>The contract of the library sort\<close>

lemma mset_insertBack: "mset (insertBack lt x rs) = add_mset x (mset rs)"
  by (induction rs) auto

lemma set_insertBack: "set (insertBack lt x rs) = insert x (set rs)"
  by (induction rs) auto

lemma mset_fold_insertBack: "mset (fold (insertBack lt) xs acc) = mset xs + mset acc"
  by (induction xs arbitrary: acc) (auto simp: mset_insertBack)

lemma set_fold_insertBack: "set (fold (insertBack lt) xs acc) = set xs \<union> set acc"
  by (induction xs arbitrary: acc) (auto simp: set_insertBack)

lemma sorted_insertBack:
  assumes "strict_weak_on A lt" and "x \<in> A" and "set rs \<subseteq> A"
    and "sorted_wrt (\<lambda>a b. \<not> lt a b) rs"
  shows "sorted_wrt (\<lambda>a b. \<not> lt a b) (insertBack lt x rs)"
  using assms(3,4)
proof (induction rs)
  case Nil
  then show ?case by simp
next
  case (Cons y rs)
  have irr: "\<not> lt a a" if "a \<in> A" for a
    using assms(1) that by (simp add: strict_weak_on_def)
  have tr: "lt a c" if "lt a b" "lt b c" "a \<in> A" "b \<in> A" "c \<in> A" for a b c
    using assms(1) that unfolding strict_weak_on_def by blast
  have ntr: "\<not> lt a c" if "\<not> lt a b" "\<not> lt b c" "a \<in> A" "b \<in> A" "c \<in> A" for a b c
    using assms(1) that unfolding strict_weak_on_def by blast
  have y: "y \<in> A" and rs: "set rs \<subseteq> A" using Cons.prems(1) by auto
  show ?case
  proof (cases "lt x y")
    case True
    have "\<not> lt y x" using True irr tr assms(2) y by blast
    moreover have "sorted_wrt (\<lambda>a b. \<not> lt a b) (insertBack lt x rs)"
      using Cons.IH rs Cons.prems(2) by simp
    ultimately show ?thesis
      using True Cons.prems(2) by (auto simp: set_insertBack)
  next
    case False
    have "\<not> lt x z" if "z \<in> set rs" for z
    proof -
      have "\<not> lt y z" using Cons.prems(2) that by simp
      then show ?thesis using False ntr assms(2) y rs that by blast
    qed
    then show ?thesis
      using False Cons.prems(2) by auto
  qed
qed

lemma sorted_fold_insertBack:
  assumes "strict_weak_on A lt"
  shows "set xs \<subseteq> A \<Longrightarrow> set acc \<subseteq> A \<Longrightarrow> sorted_wrt (\<lambda>a b. \<not> lt a b) acc
         \<Longrightarrow> sorted_wrt (\<lambda>a b. \<not> lt a b) (fold (insertBack lt) xs acc)"
proof (induction xs arbitrary: acc)
  case Nil
  then show ?case by simp
next
  case (Cons x xs)
  have "sorted_wrt (\<lambda>a b. \<not> lt a b) (insertBack lt x acc)"
    using sorted_insertBack [OF assms, of x acc] Cons.prems by simp
  moreover have "set (insertBack lt x acc) \<subseteq> A"
    using Cons.prems by (simp add: set_insertBack)
  ultimately show ?case
    using Cons.IH [of "insertBack lt x acc"] Cons.prems(1) by simp
qed

lemma insertionSort_contract: "sort_contract insertionSort"
  unfolding sort_contract_def
proof (intro allI conjI impI)
  fix lt :: "'a \<Rightarrow> 'a \<Rightarrow> bool" and xs
  show "mset (insertionSort lt xs) = mset xs"
    by (simp add: insertionSort_def mset_fold_insertBack)
  assume "strict_weak_on (set xs) lt"
  then have "sorted_wrt (\<lambda>a b. \<not> lt a b) (fold (insertBack lt) xs [])"
    by (rule sorted_fold_insertBack) simp_all
  then show "sorted_wrt (\<lambda>a b. \<not> lt b a) (insertionSort lt xs)"
    by (simp add: insertionSort_def sorted_wrt_rev)
qed

lemma contract_mset: "sort_contract srt \<Longrightarrow> mset (srt lt xs) = mset xs"
  by (simp add: sort_contract_def)

lemma contract_length: "sort_contract srt \<Longrightarrow> length (srt lt xs) = length xs"
  by (metis contract_mset size_mset)

























subsection \<open>Reading and writing the bound slice\<close>

lemma StructType_bound:
  "Slice sv = Iface (PtrTo (SliceOf (StructOf n flds))) a \<Longrightarrow> StructType sv = Some (StructOf n flds)"
  by (simp add: StructType_def)

lemma SliceValue_bound:
  "Slice sv = Iface (PtrTo (SliceOf t)) a \<Longrightarrow> a \<noteq> 0 \<Longrightarrow> SliceValue sv = Some (Heap sv a)"
  by (simp add: SliceValue_def)

lemma SetSliceValue_bound:
  "Slice sv = Iface (PtrTo (SliceOf t)) a \<Longrightarrow> a \<noteq> 0 \<Longrightarrow>
   SetSliceValue sv v = Some (sv\<lparr>Heap := (Heap sv)(a := v)\<rparr>)"
  by (simp add: SetSliceValue_def)

lemma Copy_delete:
  assumes "i < length xs"
  shows "take (length xs - 1) ((Copy xs (i, length xs - 1) (Suc i, length xs))[length xs - 1 := z])
         = take i xs @ drop (Suc i) xs"
proof -
  have n: "min (length xs - 1 - i) (length xs - Suc i) = length xs - Suc i" by simp
  have c: "Copy xs (i, length xs - 1) (Suc i, length xs)
           = take i xs @ drop (Suc i) xs @ drop (length xs - 1) xs"
    using assms by (simp add: Copy_def Let_def n)
  have l: "length (take i xs @ drop (Suc i) xs) = length xs - 1"
    using assms by simp
  have "take (length (take i xs @ drop (Suc i) xs))
          ((take i xs @ drop (Suc i) xs) @ drop (length xs - 1) xs) = take i xs @ drop (Suc i) xs"
    by (rule append_eq_conv_conj [THEN iffD1, THEN conjunct1, symmetric]) (rule refl)
  then have "take (length xs - 1) (take i xs @ drop (Suc i) xs @ drop (length xs - 1) xs)
             = take i xs @ drop (Suc i) xs"
    unfolding l by simp
  then show ?thesis
    unfolding c by (simp add: take_update_cancel)
qed

lemma Copy_insert:
  assumes "i < length xs"
  shows "(Copy (xs @ [z]) (Suc i, Suc (length xs)) (i, length xs))[i := z]
         = take i xs @ z # drop i xs"
proof -
  have n: "min (Suc (length xs) - Suc i) (length xs - i) = length xs - i" by simp
  have c: "Copy (xs @ [z]) (Suc i, Suc (length xs)) (i, length xs)
           = take (Suc i) xs @ drop i xs"
    using assms by (simp add: Copy_def Let_def n)
  show ?thesis
    unfolding c using assms
    by (simp add: take_Suc_conv_app_nth list_update_append)
qed

lemma SliceDelete_in_range:
  assumes b: "Slice sv = Iface (PtrTo (SliceOf (StructOf n flds))) a" "a \<noteq> 0"
    and r: "0 \<le> idx" "idx < int (length (Heap sv a))"
  shows "\<exists>sv'. SliceDelete sv idx = Some sv' \<and> Slice sv' = Slice sv
           \<and> Heap sv' a = take (nat idx) (Heap sv a) @ drop (Suc (nat idx)) (Heap sv a)"
proof -
  let ?xs = "Heap sv a"
  let ?c = "Copy ?xs (nat idx, length ?xs - Suc 0) (Suc (nat idx), length ?xs)"
  have i: "nat idx < length ?xs" using r by simp
  have w1: "SliceWin ?xs idx (int (length ?xs) - 1) = Some (nat idx, length ?xs - Suc 0)"
    using r by (simp add: SliceWin_def nat_diff_distrib)
  have w2: "SliceWin ?xs (idx + 1) (int (length ?xs)) = Some (Suc (nat idx), length ?xs)"
    using r by (simp add: SliceWin_def nat_add_distrib)
  have n: "nat (int (length ?xs) - 1) = length ?xs - Suc 0"
    by (simp add: nat_diff_distrib)
  have lc: "length ?c = length ?xs"
    using i by (simp add: Copy_def Let_def)
  have w3: "SliceWin (?c[length ?xs - Suc 0 := z]) 0 (int (length ?xs) - 1) = Some (0, length ?xs - Suc 0)" for z
    using r lc by (auto simp: SliceWin_def nat_diff_distrib)
  have t: "take (length ?xs - Suc 0) (?c[length ?xs - Suc 0 := z])
           = take (nat idx) ?xs @ drop (Suc (nat idx)) ?xs" for z
    using Copy_delete [OF i, of z] by simp
  show ?thesis
    by (simp add: SliceDelete_def SliceValue_bound [OF b] StructType_bound [OF b(1)]
          SetSliceValue_bound [OF b] w1 w2 n w3 t b Let_def)
qed


text \<open>
  \<^verbatim>\<open>SliceNewAt\<close> shifts and inserts for an index in \<open>[0, len - 2]\<close>, and appends for
  every other index.
\<close>

lemma SliceNewAt_insert:
  assumes b: "Slice sv = Iface (PtrTo (SliceOf (StructOf n flds))) a" "a \<noteq> 0"
    and r: "0 \<le> idx" "idx < int (length (Heap sv a)) - 1"
  shows "\<exists>sv'. SliceNewAt sv idx = Some sv' \<and> Slice sv' = Slice sv
           \<and> Heap sv' a = take (nat idx) (Heap sv a) @ ZeroStru flds # drop (nat idx) (Heap sv a)"
proof -
  let ?xs = "Heap sv a"
  have i: "nat idx < length ?xs" using r by simp
  have w1: "SliceWin (?xs @ [z]) (idx + 1) (int (length ?xs) + 1) = Some (Suc (nat idx), Suc (length ?xs))" for z
    using r by (simp add: SliceWin_def nat_add_distrib)
  have w2: "SliceWin (?xs @ [z]) idx (int (length ?xs)) = Some (nat idx, length ?xs)" for z
    using r by (simp add: SliceWin_def)
  show ?thesis
    using Copy_insert [OF i, of "ZeroStru flds"] r
    by (simp add: SliceNewAt_def SliceValue_bound [OF b] StructType_bound [OF b(1)]
          SetSliceValue_bound [OF b] w1 w2 b Let_def)
qed

lemma SliceNewAt_append:
  assumes b: "Slice sv = Iface (PtrTo (SliceOf (StructOf n flds))) a" "a \<noteq> 0"
    and r: "idx < 0 \<or> int (length (Heap sv a)) - 1 \<le> idx"
  shows "\<exists>sv'. SliceNewAt sv idx = Some sv' \<and> Slice sv' = Slice sv
           \<and> Heap sv' a = Heap sv a @ [ZeroStru flds]"
  using r
  by (auto simp: SliceNewAt_def SliceValue_bound [OF b] StructType_bound [OF b(1)]
        SetSliceValue_bound [OF b] b Let_def)

subsection \<open>Insertion and deletion\<close>

text \<open>
  C9. On a view bound to a slice of structs, \<^verbatim>\<open>SliceDelete\<close> at an index in
  \<open>[0, len - 1]\<close> returns, the slice is one element shorter, it is the old slice
  without the element at the index, the elements before the index are where they
  were, and each element behind it is one place to the left.
\<close>

theorem SliceDelete_removes_one:
  assumes "Slice sv = Iface (PtrTo (SliceOf (StructOf n flds))) a" and "a \<noteq> 0"
    and "0 \<le> idx" and "idx < int (length (Heap sv a))"
  shows "\<exists>sv'. SliceDelete sv idx = Some sv'
           \<and> SliceValue sv' = Some (Heap sv' a)
           \<and> int (length (Heap sv' a)) = int (length (Heap sv a)) - 1
           \<and> Heap sv' a = take (nat idx) (Heap sv a) @ drop (nat idx + 1) (Heap sv a)
           \<and> (\<forall>k. k < nat idx \<longrightarrow> Heap sv' a ! k = Heap sv a ! k)
           \<and> (\<forall>k. nat idx \<le> k \<and> k + 1 < length (Heap sv a)
                  \<longrightarrow> Heap sv' a ! k = Heap sv a ! (k + 1))"
proof -
  let ?xs = "Heap sv a"
  obtain sv' where d: "SliceDelete sv idx = Some sv'" and s: "Slice sv' = Slice sv"
    and h: "Heap sv' a = take (nat idx) ?xs @ drop (Suc (nat idx)) ?xs"
    using SliceDelete_in_range [OF assms] by blast
  have i: "nat idx < length ?xs" using assms(3,4) by simp
  have v: "SliceValue sv' = Some (Heap sv' a)"
    using s assms(1,2) by (simp add: SliceValue_def)
  have l: "int (length (Heap sv' a)) = int (length ?xs) - 1"
    unfolding h using i by (simp add: min_def)
  have before: "Heap sv' a ! k = ?xs ! k" if "k < nat idx" for k
    unfolding h using that i by (simp add: nth_append)
  have behind: "Heap sv' a ! k = ?xs ! (k + 1)" if "nat idx \<le> k" "k + 1 < length ?xs" for k
    unfolding h using that i by (simp add: nth_append min_def)
  show ?thesis
    using d v l h before behind by auto
qed

theorem SliceDelete_removes_one_witness:
  "Option.bind (SliceDelete demoView 0) SliceValue = Some [[IntV 2, StringV ''a'', FloatV (F64 1)]]"
proof -
  have b: "Slice demoView = Iface (PtrTo (SliceOf (StructOf ''main.Rec'' demoFields))) 1"
    by (simp add: demoView_def demoType_def)
  have r: "(0::int) \<le> 0" "0 < int (length (Heap demoView 1))"
    by (simp_all add: demoView_def demoSlice_def)
  have n: "(1::nat) \<noteq> 0" by simp
  obtain sv' where "SliceDelete demoView 0 = Some sv'" "SliceValue sv' = Some (Heap sv' 1)"
    "Heap sv' 1 = take (nat 0) (Heap demoView 1) @ drop (nat 0 + 1) (Heap demoView 1)"
    using SliceDelete_removes_one [OF b n r] by blast
  then show ?thesis
    by (simp add: demoView_def demoSlice_def)
qed

text \<open>
  C1. \<^verbatim>\<open>SliceNewAt\<close> at the index of the last element: on the sequence of two
  records, inserting at index 1 leaves both records where they were and puts the
  zero-valued record at index 2, behind them.
\<close>

theorem SliceNewAt_last_index_appends:
  "Option.bind (SliceNewAt demoView 1) SliceValue =
     Some [[IntV 1, StringV ''b'', FloatV (F64 3)], [IntV 2, StringV ''a'', FloatV (F64 1)],
           [IntV 0, StringV [], FloatV (F64 0)]]"
proof -
  have b: "Slice demoView = Iface (PtrTo (SliceOf (StructOf ''main.Rec'' demoFields))) 1"
    by (simp add: demoView_def demoType_def)
  have r: "(1::int) < 0 \<or> int (length (Heap demoView 1)) - 1 \<le> 1"
    by (simp add: demoView_def demoSlice_def)
  have n: "(1::nat) \<noteq> 0" by simp
  obtain sv' where "SliceNewAt demoView 1 = Some sv'" "Slice sv' = Slice demoView"
    "Heap sv' 1 = Heap demoView 1 @ [ZeroStru demoFields]"
    using SliceNewAt_append [OF b n r] by blast
  moreover from this have "SliceValue sv' = Some (Heap sv' 1)"
    using SliceValue_bound [of sv' _ 1] b by simp
  ultimately show ?thesis
    by (simp add: demoView_def demoSlice_def ZeroStru_def demoFields_def)
qed




subsection \<open>Loops\<close>

lemma forM_upt_inv:
  assumes "I m s" and "m \<le> n"
    and step: "\<And>i s. m \<le> i \<Longrightarrow> i < n \<Longrightarrow> I i s \<Longrightarrow> \<exists>s'. body i s = Some s' \<and> I (Suc i) s'"
  shows "\<exists>s'. forM [m..<n] body s = Some s' \<and> I n s'"
  using assms(1,2) step
proof (induction "n - m" arbitrary: m s)
  case 0
  then show ?case by simp
next
  case (Suc d)
  then have lt: "m < n" by simp
  obtain s1 where s1: "body m s = Some s1" "I (Suc m) s1"
    using Suc.prems(3) [of m s] Suc.prems(1) lt by auto
  have "\<exists>s'. forM [Suc m..<n] body s1 = Some s' \<and> I n s'"
  proof (rule Suc.hyps(1))
    show "d = n - Suc m" using Suc.hyps(2) by simp
    show "I (Suc m) s1" by (rule s1(2))
    show "Suc m \<le> n" using lt by simp
    show "\<exists>s'. body i s = Some s' \<and> I (Suc i) s'" if "Suc m \<le> i" "i < n" "I i s" for i s
      using Suc.prems(3) [of i s] that by simp
  qed
  then show ?case
    using lt s1(1) by (simp add: upt_conv_Cons)
qed

lemma SetSelectedAt_Complete:
  assumes "list_all (\<lambda>w. w \<noteq> None) kids"
  shows "\<exists>kids'. SetSelectedAt b x kids = Some kids' \<and> list_all (\<lambda>w. w \<noteq> None) kids'
           \<and> length kids' = length kids"
proof (cases "0 \<le> x \<and> x < int (length kids)")
  case True
  then have "nat x < length kids" by (auto simp: nat_less_iff)
  then have "kids ! nat x \<noteq> None"
    using assms by (simp add: list_all_length)
  then obtain w where w: "kids ! nat x = Some w" by auto
  have "list_all (\<lambda>w. w \<noteq> None) (kids[nat x := Some (w\<lparr>Selected := b\<rparr>)])"
    using assms set_update_subset_insert [of kids "nat x" "Some (w\<lparr>Selected := b\<rparr>)"]
    by (auto simp: list_all_iff)
  then show ?thesis
    using True w by (simp add: SetSelectedAt_def)
next
  case False
  then show ?thesis
    using assms by (auto simp: SetSelectedAt_def)
qed

lemma SelectRow_Complete:
  assumes "list_all (\<lambda>w. w \<noteq> None) kids"
  shows "\<exists>kids'. SelectRow b idx nfld kids = Some kids' \<and> list_all (\<lambda>w. w \<noteq> None) kids'
           \<and> length kids' = length kids"
  unfolding SelectRow_def Let_def
proof (rule forM_upt_inv
    [where I = "\<lambda>i ks. list_all (\<lambda>w. w \<noteq> None) ks \<and> length ks = length kids"])
  show "list_all (\<lambda>w. w \<noteq> None) kids \<and> length kids = length kids"
    using assms by simp
  show "0 \<le> nfld" by simp
  fix i and ks :: "Widget option list"
  assume "list_all (\<lambda>w. w \<noteq> None) ks \<and> length ks = length kids"
  then show "\<exists>s'. SetSelectedAt b (idx * (int nfld + 1) + 1 + int i) ks = Some s'
                 \<and> list_all (\<lambda>w. w \<noteq> None) s' \<and> length s' = length kids"
    using SetSelectedAt_Complete [of ks b "idx * (int nfld + 1) + 1 + int i"] by auto
qed

subsection \<open>Selection\<close>

lemma SetKids_fields:
  "SelectedIdx (SetKids sv k) = SelectedIdx sv"
  "Sigs (SetKids sv k) = Sigs sv"
  "Slice (SetKids sv k) = Slice sv"
  "Heap (SetKids sv k) = Heap sv"
  "SortIdx (SetKids sv k) = SortIdx sv"
  "SortDesc (SetKids sv k) = SortDesc sv"
  "builtSlice (SetKids sv k) = builtSlice sv"
  "builtSize (SetKids sv k) = builtSize sv"
  "Values (SetKids sv k) = Values sv"
  "Inactive (SetKids sv k) = Inactive sv"
  by (simp_all add: SetKids_def split: option.split SliceGridW.split)

lemma GridOf_SetKids:
  "GridOf sv = Some sg \<Longrightarrow> GridOf (SetKids sv k) = Some (GridParts (Header sg) k (Columns sg))"
  by (auto simp: GridOf_def SetKids_def split: option.splits SliceGridW.splits)

lemma StructType_cong: "Slice sv' = Slice sv \<Longrightarrow> StructType sv' = StructType sv"
  by (simp add: StructType_def)

lemma bound_fields:
  assumes "Option.bind (StructType sv) Fields = Some flds"
  obtains t where "StructType sv = Some t" and "Fields t = Some flds"
    and "NumField t = Some (length flds)"
  using assms by (auto simp: bind_eq_Some_conv NumField_def)

lemma GridComplete_obtain:
  assumes "GridComplete sv"
  obtains sg where "GridOf sv = Some sg" and "list_all (\<lambda>w. w \<noteq> None) (Kids sg)"
  using assms by (auto simp: GridComplete_def split: option.splits)

lemma cell_div_mod:
  assumes "i < nfld"
  shows "(a * (nfld + 1) + 1 + i) div (nfld + 1) = a"
    and "(a * (nfld + 1) + 1 + i) mod (nfld + 1) = Suc i"
proof -
  have e: "a * (nfld + 1) + 1 + i = Suc i + a * (nfld + 1)" by simp
  show "(a * (nfld + 1) + 1 + i) div (nfld + 1) = a"
    unfolding e by (subst div_mult_self1) (use assms in simp_all)
  show "(a * (nfld + 1) + 1 + i) mod (nfld + 1) = Suc i"
    unfolding e by (subst mod_mult_self1) (use assms in simp_all)
qed

lemma cell_of_div_mod:
  "k div (nfld + 1) = a \<Longrightarrow> k mod (nfld + 1) = Suc i \<Longrightarrow> k = a * (nfld + 1) + 1 + i"
  by (metis Suc_eq_plus1 add.assoc add.commute div_mult_mod_eq mult.commute plus_1_eq_Suc)

lemma seldx_nat:
  "0 \<le> idx \<Longrightarrow> idx * (int nfld + 1) + 1 + int i = int (nat idx * (nfld + 1) + 1 + i)"
  by (simp add: algebra_simps)

lemma SetSelectedAt_flags:
  assumes "list_all (\<lambda>w. w \<noteq> None) kids" and "p < length kids"
  shows "\<exists>kids'. SetSelectedAt b (int p) kids = Some kids' \<and> list_all (\<lambda>w. w \<noteq> None) kids'
           \<and> length kids' = length kids
           \<and> (\<forall>k<length kids. IsSelected (kids' ! k) = (if k = p then b else IsSelected (kids ! k)))"
proof -
  have "kids ! p \<noteq> None"
    using assms by (simp add: list_all_length)
  then obtain w where w: "kids ! p = Some w" by auto
  have "list_all (\<lambda>w. w \<noteq> None) (kids[p := Some (w\<lparr>Selected := b\<rparr>)])"
    using assms set_update_subset_insert [of kids p "Some (w\<lparr>Selected := b\<rparr>)"]
    by (auto simp: list_all_iff)
  then show ?thesis
    using assms(2) w by (simp add: SetSelectedAt_def IsSelected_def nth_list_update)
qed

lemma SelectRow_flags:
  assumes c: "list_all (\<lambda>w. w \<noteq> None) kids"
    and l: "length kids = rows * (nfld + 1)"
    and r: "0 \<le> idx" "idx < int rows"
  shows "\<exists>kids'. SelectRow b idx nfld kids = Some kids' \<and> list_all (\<lambda>w. w \<noteq> None) kids'
           \<and> length kids' = length kids
           \<and> (\<forall>k<length kids. IsSelected (kids' ! k) =
                 (if k div (nfld + 1) = nat idx \<and> k mod (nfld + 1) \<noteq> 0 then b
                  else IsSelected (kids ! k)))"
proof -
  let ?I = "\<lambda>i ks. list_all (\<lambda>w. w \<noteq> None) ks \<and> length ks = length kids
              \<and> (\<forall>k<length kids. IsSelected (ks ! k) =
                    (if k div (nfld + 1) = nat idx \<and> k mod (nfld + 1) \<noteq> 0 \<and> k mod (nfld + 1) \<le> i
                     then b else IsSelected (kids ! k)))"
  have "\<exists>s'. forM [0..<nfld] (\<lambda>fli ks. SetSelectedAt b (idx * (int nfld + 1) + 1 + int fli) ks) kids
               = Some s' \<and> ?I nfld s'"
  proof (rule forM_upt_inv [where I = ?I])
    show "?I 0 kids" using c by auto
    show "0 \<le> nfld" by simp
    fix i and ks :: "Widget option list"
    assume i: "i < nfld" and I: "?I i ks"
    let ?p = "nat idx * (nfld + 1) + 1 + i"
    have "nat idx < rows" using r by simp
    then have "Suc (nat idx) * (nfld + 1) \<le> rows * (nfld + 1)"
      by (meson Suc_leI mult_le_mono1)
    then have p: "?p < length ks" using i l I by simp
    obtain ks' where s: "SetSelectedAt b (int ?p) ks = Some ks'"
      and c': "list_all (\<lambda>w. w \<noteq> None) ks'" and l': "length ks' = length ks"
      and f: "\<forall>k<length ks. IsSelected (ks' ! k) = (if k = ?p then b else IsSelected (ks ! k))"
      using SetSelectedAt_flags [OF _ p, of b] I by blast
    have "IsSelected (ks' ! k) =
            (if k div (nfld + 1) = nat idx \<and> k mod (nfld + 1) \<noteq> 0 \<and> k mod (nfld + 1) \<le> Suc i
             then b else IsSelected (kids ! k))" if k: "k < length kids" for k
    proof (cases "k = ?p")
      case True
      then show ?thesis
        using f k I cell_div_mod [OF i, of "nat idx"] by simp
    next
      case False
      then have "\<not> (k div (nfld + 1) = nat idx \<and> k mod (nfld + 1) = Suc i)"
        using cell_of_div_mod [of k nfld "nat idx" i] by blast
      then have "(k div (nfld + 1) = nat idx \<and> k mod (nfld + 1) \<noteq> 0 \<and> k mod (nfld + 1) \<le> Suc i)
                 = (k div (nfld + 1) = nat idx \<and> k mod (nfld + 1) \<noteq> 0 \<and> k mod (nfld + 1) \<le> i)"
        by (auto simp: le_Suc_eq)
      then show ?thesis
        using f k I False by simp
    qed
    then show "\<exists>s'. SetSelectedAt b (idx * (int nfld + 1) + 1 + int i) ks = Some s' \<and> ?I (Suc i) s'"
      using s c' l' I by (simp add: seldx_nat [OF r(1)])
  qed
  then obtain kids' where k: "SelectRow b idx nfld kids = Some kids'" and I: "?I nfld kids'"
    by (auto simp: SelectRow_def Let_def)
  have "k mod (nfld + 1) \<le> nfld" for k
    by (metis Suc_eq_plus1 less_Suc_eq_le mod_less_divisor zero_less_Suc)
  then show ?thesis
    using k I by simp
qed

lemma RowSlots_nth:
  "k < n \<Longrightarrow> RowSlots nfld n j ! k = (0 \<le> j \<and> k div (nfld + 1) = nat j \<and> k mod (nfld + 1) \<noteq> 0)"
  by (simp add: RowSlots_def)

lemma RowSlots_length: "length (RowSlots nfld n j) = n"
  by (simp add: RowSlots_def)

lemma RowSlots_none: "j < 0 \<Longrightarrow> RowSlots nfld n j = replicate n False"
  by (simp add: RowSlots_def map_replicate_const)

lemma list_all_zip_same: "list_all (\<lambda>p. fst p \<longrightarrow> snd p) (zip xs xs)"
  by (induction xs) auto

lemma UpdateSelect_browse:
  assumes B: "BrowseTable sv flds rows"
    and v: "sel \<Longrightarrow> 0 \<le> idx \<and> idx < int rows"
  shows "\<exists>sv'. UpdateSelect sv idx sel = Some sv'
           \<and> SelectedIdx sv' = (if sel then idx else -1)
           \<and> SelectedSlots sv' = RowSlots (length flds) (rows * (length flds + 1)) (if sel then idx else -1)
           \<and> Sigs sv' = Sigs sv @ [SelectSig (if sel then idx else -1)]
           \<and> BrowseTable sv' flds rows"
proof -
  let ?nfld = "length flds"
  let ?N = "rows * (?nfld + 1)"
  let ?new = "if sel then idx else -1"
  have b: "Option.bind (StructType sv) Fields = Some flds" and gc: "GridComplete sv"
    and ls: "length (SelectedSlots sv) = ?N" and sr: "SelectedIdx sv < int rows"
    and inv: "list_all (\<lambda>p. fst p \<longrightarrow> snd p)
                (zip (SelectedSlots sv) (RowSlots ?nfld ?N (SelectedIdx sv)))"
    using B by (simp_all add: BrowseTable_def)
  obtain t where t: "StructType sv = Some t" "Fields t = Some flds" "NumField t = Some ?nfld"
    using b by (rule bound_fields)
  obtain sg where sg: "GridOf sv = Some sg" and c: "list_all (\<lambda>w. w \<noteq> None) (Kids sg)"
    using gc by (rule GridComplete_obtain)
  let ?kids = "Kids sg"
  have ss: "SelectedSlots sv = map IsSelected ?kids"
    by (simp add: SelectedSlots_def sg)
  have l: "length ?kids = ?N" using ls ss by simp
  have off: "\<not> IsSelected (?kids ! k)"
    if "k < ?N" "\<not> (0 \<le> SelectedIdx sv \<and> k div (?nfld + 1) = nat (SelectedIdx sv) \<and> k mod (?nfld + 1) \<noteq> 0)"
    for k
  proof -
    have "(k < length (SelectedSlots sv) \<and> k < length (RowSlots ?nfld ?N (SelectedIdx sv)))
            \<longrightarrow> (SelectedSlots sv ! k \<longrightarrow> RowSlots ?nfld ?N (SelectedIdx sv) ! k)"
      using inv by (simp add: list_all_length)
    then show ?thesis
      using that l by (auto simp: ss RowSlots_length RowSlots_nth)
  qed
  txt \<open>The row selected before is cleared: no slot is selected.\<close>
  have "\<exists>kids1. (if SelectedIdx sv \<ge> 0 then SelectRow False (SelectedIdx sv) ?nfld ?kids
                  else Some ?kids) = Some kids1
          \<and> list_all (\<lambda>w. w \<noteq> None) kids1 \<and> length kids1 = ?N
          \<and> (\<forall>k<?N. \<not> IsSelected (kids1 ! k))"
  proof (cases "SelectedIdx sv \<ge> 0")
    case True
    obtain kids1 where "SelectRow False (SelectedIdx sv) ?nfld ?kids = Some kids1"
      "list_all (\<lambda>w. w \<noteq> None) kids1" "length kids1 = length ?kids"
      "\<forall>k<length ?kids. IsSelected (kids1 ! k) =
          (if k div (?nfld + 1) = nat (SelectedIdx sv) \<and> k mod (?nfld + 1) \<noteq> 0 then False
           else IsSelected (?kids ! k))"
      using SelectRow_flags [OF c l True sr, of False] by blast
    then show ?thesis
      using True l off by auto
  next
    case False
    then show ?thesis
      using c l off by auto
  qed
  then obtain kids1 where k1: "(if SelectedIdx sv \<ge> 0 then SelectRow False (SelectedIdx sv) ?nfld ?kids
                  else Some ?kids) = Some kids1"
    and c1: "list_all (\<lambda>w. w \<noteq> None) kids1" and l1: "length kids1 = ?N"
    and f1: "\<forall>k<?N. \<not> IsSelected (kids1 ! k)"
    by blast
  txt \<open>The row asked for is selected, or none.\<close>
  have "\<exists>kids2. (if sel then SelectRow True idx ?nfld kids1 else Some kids1) = Some kids2
          \<and> list_all (\<lambda>w. w \<noteq> None) kids2 \<and> length kids2 = ?N
          \<and> map IsSelected kids2 = RowSlots ?nfld ?N ?new"
  proof (cases sel)
    case True
    obtain kids2 where k2: "SelectRow True idx ?nfld kids1 = Some kids2"
      "list_all (\<lambda>w. w \<noteq> None) kids2" "length kids2 = length kids1"
      "\<forall>k<length kids1. IsSelected (kids2 ! k) =
          (if k div (?nfld + 1) = nat idx \<and> k mod (?nfld + 1) \<noteq> 0 then True
           else IsSelected (kids1 ! k))"
      using SelectRow_flags [OF c1 l1, of idx True] v True by blast
    have "map IsSelected kids2 = RowSlots ?nfld ?N idx"
      using k2(3,4) l1 f1 v True
      by (auto simp: list_eq_iff_nth_eq RowSlots_length RowSlots_nth)
    then show ?thesis
      using True k2 l1 by simp
  next
    case False
    have "map IsSelected kids1 = RowSlots ?nfld ?N (-1)"
      using l1 f1 by (auto simp: list_eq_iff_nth_eq RowSlots_length RowSlots_nth)
    then show ?thesis
      using False c1 l1 by simp
  qed
  then obtain kids2 where k2: "(if sel then SelectRow True idx ?nfld kids1 else Some kids1) = Some kids2"
    and c2: "list_all (\<lambda>w. w \<noteq> None) kids2" and l2: "length kids2 = ?N"
    and f2: "map IsSelected kids2 = RowSlots ?nfld ?N ?new"
    by blast
  define sv' where "sv' = (SetKids (sv\<lparr>SelectedIdx := ?new\<rparr>) kids2)
                            \<lparr>Sigs := Sigs sv @ [SelectSig ?new]\<rparr>"
  have u: "UpdateSelect sv idx sel = Some sv'"
    by (simp add: UpdateSelect_def t sg k1 k2 SetKids_fields Let_def sv'_def)
  have g: "GridOf sv' = Some (GridParts (Header sg) kids2 (Columns sg))"
    using GridOf_SetKids [of "sv\<lparr>SelectedIdx := ?new\<rparr>" sg kids2] sg
    by (simp add: sv'_def GridOf_def)
  have si: "SelectedIdx sv' = ?new" and sigs: "Sigs sv' = Sigs sv @ [SelectSig ?new]"
    by (simp_all add: sv'_def SetKids_fields)
  have slots: "SelectedSlots sv' = RowSlots ?nfld ?N ?new"
    by (simp add: SelectedSlots_def g f2)
  have st: "StructType sv' = StructType sv"
    by (rule StructType_cong) (simp add: sv'_def SetKids_fields)
  have "?new < int rows" using v by auto
  then have "BrowseTable sv' flds rows"
    unfolding BrowseTable_def using c2
    by (simp add: st b GridComplete_def g slots RowSlots_length si list_all_zip_same)
  then show ?thesis
    using u si sigs slots by blast
qed

lemma browseView_table: "BrowseTable browseView demoFields 2"
proof -
  have s: "StructType browseView = Some (StructOf ''main.Rec'' demoFields)"
    by (simp add: StructType_def browseView_def demoView_def demoType_def)
  have g: "GridOf browseView = Some (GridParts [] browseKids 4)"
    by (simp add: GridOf_def browseView_def)
  have l: "length demoFields = 3" by (simp add: demoFields_def)
  have k: "map IsSelected browseKids = [False, True, True, True, False, False, False, False]"
    by (simp add: browseKids_def browseLabel_def browseCell_def IsSelected_def NewWidget_def)
  have c: "list_all (\<lambda>w. w \<noteq> None) browseKids"
    by (simp add: browseKids_def browseLabel_def browseCell_def)
  have r: "RowSlots 3 8 0 = [False, True, True, True, False, False, False, False]"
    by code_simp
  have i: "SelectedIdx browseView = 0" by (simp add: browseView_def)
  show ?thesis
    unfolding BrowseTable_def using c
    by (simp add: s g l k r i GridComplete_def SelectedSlots_def)
qed


text \<open>
  C10. On a bound slice of structs and a grid with every slot filled,
  \<^verbatim>\<open>UpdateSelect(idx, false)\<close> returns for every index, whichever row was selected
  before, and leaves the selection index at -1; the signal it emits carries -1.
\<close>

theorem UpdateSelect_deselect_clears:
  assumes "Option.bind (StructType sv) Fields = Some flds" and "GridComplete sv"
  shows "\<exists>sv'. UpdateSelect sv idx False = Some sv' \<and> SelectedIdx sv' = -1
           \<and> Sigs sv' = Sigs sv @ [SelectSig (-1)]"
proof -
  obtain t where t: "StructType sv = Some t" "NumField t = Some (length flds)"
    using assms(1) by (rule bound_fields)
  obtain sg where sg: "GridOf sv = Some sg" "list_all (\<lambda>w. w \<noteq> None) (Kids sg)"
    using assms(2) by (rule GridComplete_obtain)
  have "\<exists>kids1. (if SelectedIdx sv \<ge> 0
                   then SelectRow False (SelectedIdx sv) (length flds) (Kids sg)
                   else Some (Kids sg)) = Some kids1"
    using SelectRow_Complete [OF sg(2), of False "SelectedIdx sv" "length flds"]
    by (cases "SelectedIdx sv \<ge> 0") auto
  then obtain kids1 where k1:
    "(if SelectedIdx sv \<ge> 0 then SelectRow False (SelectedIdx sv) (length flds) (Kids sg)
      else Some (Kids sg)) = Some kids1" ..
  show ?thesis
    by (simp add: UpdateSelect_def t sg(1) k1 SetKids_fields Let_def)
qed

theorem UpdateSelect_deselect_clears_witness:
  "map_option SelectedIdx (UpdateSelect browseView 1 False) = Some (-1)
   \<and> SelectedIdx browseView = 0"
proof -
  have b: "Option.bind (StructType browseView) Fields = Some demoFields"
    and g: "GridComplete browseView"
    using browseView_table by (simp_all add: BrowseTable_def)
  show ?thesis
    using UpdateSelect_deselect_clears [OF b g, of 1] by (auto simp: browseView_def)
qed


text \<open>
  C8. In a browse-mode table in which no slot outside the selected row is selected,
  with \<open>i\<close> and \<open>j\<close> rows of the table: selecting row \<open>i\<close> and then row \<open>j\<close> leaves the
  selection index at \<open>j\<close> and exactly the field cells of row \<open>j\<close> selected, so none of row
  \<open>i\<close> when \<open>j \<noteq> i\<close>; selecting row \<open>i\<close> and then deselecting it leaves the index at -1
  and no slot selected; every call appends one \<^verbatim>\<open>SelectSig\<close> that carries the new index,
  also the second selection of the same row; and the table is again one in which no
  slot outside the selected row is selected.
\<close>

theorem UpdateSelect_one_row:
  assumes "BrowseTable sv flds rows"
    and "0 \<le> i" and "i < int rows" and "0 \<le> j" and "j < int rows"
  shows "\<exists>s1 s2 s3 s4.
           UpdateSelect sv i True = Some s1 \<and> UpdateSelect s1 j True = Some s2
           \<and> UpdateSelect s1 i False = Some s3 \<and> UpdateSelect s1 i True = Some s4
           \<and> SelectedIdx s2 = j
           \<and> SelectedSlots s2 = RowSlots (length flds) (rows * (length flds + 1)) j
           \<and> SelectedIdx s3 = -1
           \<and> SelectedSlots s3 = replicate (rows * (length flds + 1)) False
           \<and> SelectedIdx s4 = SelectedIdx s1
           \<and> Sigs s1 = Sigs sv @ [SelectSig i] \<and> Sigs s2 = Sigs s1 @ [SelectSig j]
           \<and> Sigs s3 = Sigs s1 @ [SelectSig (-1)] \<and> Sigs s4 = Sigs s1 @ [SelectSig i]
           \<and> BrowseTable s1 flds rows \<and> BrowseTable s2 flds rows \<and> BrowseTable s3 flds rows"
proof -
  obtain s1 where s1: "UpdateSelect sv i True = Some s1" "SelectedIdx s1 = i"
    "Sigs s1 = Sigs sv @ [SelectSig i]" "BrowseTable s1 flds rows"
    using UpdateSelect_browse [OF assms(1), of True i] assms(2,3) by auto
  obtain s2 where s2: "UpdateSelect s1 j True = Some s2" "SelectedIdx s2 = j"
    "SelectedSlots s2 = RowSlots (length flds) (rows * (length flds + 1)) j"
    "Sigs s2 = Sigs s1 @ [SelectSig j]" "BrowseTable s2 flds rows"
    using UpdateSelect_browse [OF s1(4), of True j] assms(4,5) by auto
  obtain s3 where s3: "UpdateSelect s1 i False = Some s3" "SelectedIdx s3 = -1"
    "SelectedSlots s3 = RowSlots (length flds) (rows * (length flds + 1)) (-1)"
    "Sigs s3 = Sigs s1 @ [SelectSig (-1)]" "BrowseTable s3 flds rows"
    using UpdateSelect_browse [OF s1(4), of False i] by auto
  obtain s4 where s4: "UpdateSelect s1 i True = Some s4" "SelectedIdx s4 = i"
    "Sigs s4 = Sigs s1 @ [SelectSig i]"
    using UpdateSelect_browse [OF s1(4), of True i] assms(2,3) by auto
  have "SelectedSlots s3 = replicate (rows * (length flds + 1)) False"
    using s3(3) by (simp add: RowSlots_none)
  then show ?thesis
    using s1 s2 s3 s4 by auto
qed

theorem UpdateSelect_one_row_witness:
  "\<exists>s1 s2 s3 s4.
           UpdateSelect browseView 1 True = Some s1 \<and> UpdateSelect s1 0 True = Some s2
           \<and> UpdateSelect s1 1 False = Some s3 \<and> UpdateSelect s1 1 True = Some s4
           \<and> SelectedIdx s2 = 0
           \<and> SelectedSlots s2 = RowSlots (length demoFields) (2 * (length demoFields + 1)) 0
           \<and> SelectedIdx s3 = -1
           \<and> SelectedSlots s3 = replicate (2 * (length demoFields + 1)) False
           \<and> SelectedIdx s4 = SelectedIdx s1
           \<and> Sigs s1 = Sigs browseView @ [SelectSig 1] \<and> Sigs s2 = Sigs s1 @ [SelectSig 0]
           \<and> Sigs s3 = Sigs s1 @ [SelectSig (-1)] \<and> Sigs s4 = Sigs s1 @ [SelectSig 1]
           \<and> BrowseTable s1 demoFields 2 \<and> BrowseTable s2 demoFields 2
           \<and> BrowseTable s3 demoFields 2"
proof -
  have r: "(0::int) \<le> 1" "(1::int) < int 2" "(0::int) \<le> 0" "(0::int) < int 2"
    by simp_all
  show ?thesis
    by (rule UpdateSelect_one_row [OF browseView_table r])
qed

subsection \<open>Building the grid\<close>

lemma ConfigCell_ok:
  assumes sh: "GridShape nfld sz len st"
    and i: "i < sz" and f: "fli < nfld"
    and r: "Suc i * (if inactive then 1 + nfld else 1 + nfld + 2) \<le> len"
  shows "\<exists>st'. ConfigCell tvv inactive nfld stru i fli st = Some st' \<and> GridShape nfld sz len st'
           \<and> (\<forall>k\<ge>Suc i * (if inactive then 1 + nfld else 1 + nfld + 2). snd st' ! k = snd st ! k)"
proof -
  let ?nW = "if inactive then 1 + nfld else 1 + nfld + 2"
  let ?ridx = "i * ?nW"
  let ?cidx = "?ridx + 1 + fli"
  obtain vals kids where st: "st = (vals, kids)" by (cases st)
  have l: "length kids = len" "length vals = nfld" "\<forall>f<nfld. length (vals ! f) = sz"
    using sh by (simp_all add: GridShape_def st)
  have c: "?cidx < Suc i * ?nW" using f by simp
  then have cl: "?cidx < length kids" using r l(1) by linarith
  have a: "?ridx + 1 + nfld + 1 < Suc i * ?nW" if "\<not> inactive" using that by simp
  show ?thesis
  proof (cases "tvv (stru ! fli)")
    case None
    then show ?thesis
      using sh by (simp add: ConfigCell_def Let_def st)
  next
    case (Some vtyp)
    have v: "fli < length vals \<and> i < length (vals ! fli)" using l f i by simp
    have sv: "length (vals[fli := (vals ! fli)[i := x]]) = nfld
              \<and> (\<forall>g<nfld. length (vals[fli := (vals ! fli)[i := x]] ! g) = sz)" for x
    proof (intro conjI allI impI)
      show "length (vals[fli := (vals ! fli)[i := x]]) = nfld" using l by simp
      show "length (vals[fli := (vals ! fli)[i := x]] ! g) = sz" if "g < nfld" for g
        using l f that by (cases "g = fli") simp_all
    qed
    show ?thesis
    proof (cases "kids ! ?cidx")
      case None
      show ?thesis
        using Some None cl v sv l c a
        by (cases inactive) (auto simp: ConfigCell_def Let_def st GridShape_def)
    next
      case (Some w)
      show ?thesis
        using \<open>tvv (stru ! fli) = Some vtyp\<close> Some cl l c a
        by (cases inactive) (auto simp: ConfigCell_def Let_def st GridShape_def)
    qed
  qed
qed

lemma ConfigRow_ok:
  assumes sh: "GridShape nfld sz len st"
    and i: "i < sz"
    and len: "len = sz * (if inactive then 1 + nfld else 1 + nfld + 2)"
    and free: "\<forall>k\<ge>i * (if inactive then 1 + nfld else 1 + nfld + 2). k < len \<longrightarrow> snd st ! k = None"
  shows "\<exists>st'. ConfigRow tvv inactive nfld xs i st = Some st' \<and> GridShape nfld sz len st'
           \<and> (\<forall>k\<ge>Suc i * (if inactive then 1 + nfld else 1 + nfld + 2). k < len \<longrightarrow> snd st' ! k = None)"
proof -
  let ?nW = "if inactive then 1 + nfld else 1 + nfld + 2"
  let ?ridx = "i * ?nW"
  let ?lab = "Some ((NewWidget KiT_Label (index_row i))\<lparr>Text := IdxTxt i\<rparr>)"
  let ?st0 = "(fst st, (snd st)[?ridx := ?lab])"
  have r: "Suc i * ?nW \<le> len"
    unfolding len using i by (meson Suc_leI mult_le_mono1)
  then have rl: "?ridx < len" by (simp split: if_splits)
  have kl: "length (snd st) = len" using sh by (simp add: GridShape_def)
  have none: "snd st ! ?ridx = None" using free rl by simp
  have sh0: "GridShape nfld sz len ?st0"
    using sh by (simp add: GridShape_def)
  let ?I = "\<lambda>(fli::nat) s. GridShape nfld sz len s \<and> (\<forall>k\<ge>Suc i * ?nW. snd s ! k = snd ?st0 ! k)"
  have "\<exists>st'. forM [0..<nfld] (ConfigCell tvv inactive nfld (xs ! i) i) ?st0 = Some st' \<and> ?I nfld st'"
  proof (rule forM_upt_inv [where I = ?I])
    show "?I 0 ?st0" using sh0 by simp
    show "0 \<le> nfld" by simp
    fix fli and s :: "ValueView option list list \<times> Widget option list"
    assume f: "fli < nfld" and I: "?I fli s"
    obtain s' where "ConfigCell tvv inactive nfld (xs ! i) i fli s = Some s'"
      "GridShape nfld sz len s'" "\<forall>k\<ge>Suc i * ?nW. snd s' ! k = snd s ! k"
      using ConfigCell_ok [OF _ i f r, of s tvv "xs ! i"] I by blast
    then show "\<exists>s'. ConfigCell tvv inactive nfld (xs ! i) i fli s = Some s' \<and> ?I (Suc fli) s'"
      using I by auto
  qed
  then obtain st' where st': "forM [0..<nfld] (ConfigCell tvv inactive nfld (xs ! i) i) ?st0 = Some st'"
    and sh': "GridShape nfld sz len st'" and fr: "\<forall>k\<ge>Suc i * ?nW. snd st' ! k = snd ?st0 ! k"
    by blast
  have "snd st' ! k = None" if "Suc i * ?nW \<le> k" "k < len" for k
  proof -
    have "k \<noteq> ?ridx" using that(1) by (simp split: if_splits)
    then have "snd ?st0 ! k = snd st ! k" by simp
    moreover have "?ridx \<le> k" using that(1) by (simp split: if_splits)
    ultimately show ?thesis using fr free that by simp
  qed
  moreover have "ConfigRow tvv inactive nfld xs i st = Some st'"
    using st' rl kl none by (simp add: ConfigRow_def Let_def)
  ultimately show ?thesis
    using sh' by blast
qed

lemma ConfigRows_ok:
  assumes sh: "GridShape nfld sz len st"
    and len: "len = sz * (if inactive then 1 + nfld else 1 + nfld + 2)"
    and free: "\<forall>k<len. snd st ! k = None"
  shows "\<exists>st'. forM [0..<sz] (ConfigRow tvv inactive nfld xs) st = Some st' \<and> GridShape nfld sz len st'"
proof -
  let ?nW = "if inactive then 1 + nfld else 1 + nfld + 2"
  let ?J = "\<lambda>i s. GridShape nfld sz len s \<and> (\<forall>k\<ge>i * ?nW. k < len \<longrightarrow> snd s ! k = None)"
  have "\<exists>st'. forM [0..<sz] (ConfigRow tvv inactive nfld xs) st = Some st' \<and> ?J sz st'"
  proof (rule forM_upt_inv [where I = ?J])
    show "?J 0 st" using sh free by simp
    show "0 \<le> sz" by simp
    fix i and s :: "ValueView option list list \<times> Widget option list"
    assume "i < sz" and "?J i s"
    then show "\<exists>s'. ConfigRow tvv inactive nfld xs i s = Some s' \<and> ?J (Suc i) s'"
      using ConfigRow_ok [of nfld sz len s i inactive tvv xs] len by blast
  qed
  then show ?thesis by blast
qed

lemma SortBound_ok:
  assumes b: "Slice sv = Iface (PtrTo (SliceOf (StructOf n flds))) a" "a \<noteq> 0"
    and c: "sort_contract srt"
  shows "\<exists>ys. SortBound srt sv = Some (sv\<lparr>Heap := (Heap sv)(a := ys)\<rparr>)
           \<and> length ys = length (Heap sv a)"
proof -
  have e: "Elem (PtrTo (SliceOf (StructOf n flds))) = Some (SliceOf (StructOf n flds))"
    "Elem (SliceOf (StructOf n flds)) = Some (StructOf n flds)"
    "NonPtrType (StructOf n flds) = StructOf n flds"
    by simp_all
  have "\<exists>err ys. SortStructSlice srt (PtrTo (SliceOf (StructOf n flds))) (Heap sv a)
                    (SortIdx sv) (\<not> SortDesc sv) = Some (err, ys)
                  \<and> length ys = length (Heap sv a)"
    by (simp add: SortStructSlice_result [OF e] contract_length [OF c] split: option.split)
  then obtain err ys where r: "SortStructSlice srt (PtrTo (SliceOf (StructOf n flds))) (Heap sv a)
                            (SortIdx sv) (\<not> SortDesc sv) = Some (err, ys)"
    and l: "length ys = length (Heap sv a)"
    by blast
  show ?thesis
    using l by (auto simp: SortBound_def b SliceValue_bound [OF b] SetSliceValue_bound [OF b] r)
qed

lemma ConfigSliceGridRows_ok:
  assumes b: "Slice sv = Iface (PtrTo (SliceOf (StructOf n flds))) a" "a \<noteq> 0"
    and g: "StructGrid sv = Some (GridParts h
              (replicate ((if Inactive sv then 1 + length flds else 1 + length flds + 2)
                            * length (Heap sv a)) None) cols)"
    and v: "Values sv = replicate (length flds) (replicate (length (Heap sv a)) None)"
  shows "\<exists>vals kids. ConfigSliceGridRows tvv sv = Some (SetKids (sv\<lparr>Values := vals\<rparr>) kids)"
proof -
  let ?nfld = "length flds" and ?sz = "length (Heap sv a)"
  let ?nW = "if Inactive sv then 1 + ?nfld else 1 + ?nfld + 2"
  let ?kids = "replicate (?nW * ?sz) None :: Widget option list"
  have go: "GridOf sv = Some (GridParts h ?kids cols)"
    by (simp add: GridOf_def g)
  have sh: "GridShape ?nfld ?sz (?sz * ?nW) (Values sv, ?kids)"
    by (simp add: GridShape_def v mult.commute)
  have "\<exists>st'. forM [0..<?sz] (ConfigRow tvv (Inactive sv) ?nfld (Heap sv a)) (Values sv, ?kids) = Some st'
          \<and> GridShape ?nfld ?sz (?sz * ?nW) st'"
    by (rule ConfigRows_ok [OF sh]) (simp_all add: mult.commute)
  then obtain st' where
    "forM [0..<?sz] (ConfigRow tvv (Inactive sv) ?nfld (Heap sv a)) (Values sv, ?kids) = Some st'"
    by blast
  then show ?thesis
    by (auto simp: ConfigSliceGridRows_def SliceValue_bound [OF b] StructType_bound [OF b(1)]
          NumField_def go)
qed

lemma ConfigHeader_fields:
  "Slice (ConfigHeader sv flds sz sg) = Slice sv"
  "Heap (ConfigHeader sv flds sz sg) = Heap sv"
  "builtSlice (ConfigHeader sv flds sz sg) = builtSlice sv"
  "builtSize (ConfigHeader sv flds sz sg) = builtSize sv"
  "SortIdx (ConfigHeader sv flds sz sg) = SortIdx sv"
  "Values (ConfigHeader sv flds sz sg) = Values sv"
  "Inactive (ConfigHeader sv flds sz sg) = Inactive sv"
  by (simp_all add: ConfigHeader_def Let_def)

lemma ConfigHeader_grid:
  "\<exists>h cols. StructGrid (ConfigHeader sv flds sz sg) =
      Some (GridParts h (replicate ((if Inactive sv then 1 + length flds else 1 + length flds + 2) * sz)
                           None) cols)"
  by (simp add: ConfigHeader_def Let_def)

lemma ConfigSliceGrid_built:
  assumes b: "Slice sv = Iface (PtrTo (SliceOf (StructOf n flds))) a" "a \<noteq> 0"
    and c: "sort_contract srt"
  shows "\<exists>sv'. ConfigSliceGrid srt tvv sv = Some sv' \<and> Slice sv' = Slice sv
           \<and> builtSlice sv' = Slice sv' \<and> builtSize sv' = int (length (Heap sv' a))"
proof (cases "builtSlice sv = Slice sv \<and> builtSize sv = int (length (Heap sv a))")
  case True
  then show ?thesis
    by (simp add: ConfigSliceGrid_def b SliceValue_bound [OF b])
next
  case False
  let ?sz = "length (Heap sv a)" and ?nfld = "length flds"
  define sv2 where "sv2 = sv\<lparr>builtSlice := Slice sv, builtSize := int ?sz, SelectedIdx := -1,
                               Values := replicate ?nfld (replicate ?sz None)\<rparr>"
  have b2: "Slice sv2 = Iface (PtrTo (SliceOf (StructOf n flds))) a"
    and f2: "Heap sv2 = Heap sv" "builtSlice sv2 = Slice sv" "builtSize sv2 = int ?sz"
      "Values sv2 = replicate ?nfld (replicate ?sz None)" "StructGrid sv2 = StructGrid sv"
    by (simp_all add: sv2_def b)
  have unf: "ConfigSliceGrid srt tvv sv =
      (case StructGrid sv of
         None \<Rightarrow> Some sv2
       | Some sg \<Rightarrow>
           Option.bind (if SortIdx (ConfigHeader sv2 flds ?sz sg) \<ge> 0
                        then SortBound srt (ConfigHeader sv2 flds ?sz sg)
                        else Some (ConfigHeader sv2 flds ?sz sg))
             (ConfigSliceGridRows tvv))"
    using False
    by (auto simp: ConfigSliceGrid_def b SliceValue_bound [OF b] StructType_def Let_def sv2_def
          split: option.split)
  show ?thesis
  proof (cases "StructGrid sv")
    case None
    then show ?thesis
      by (simp add: unf b2 f2 b)
  next
    case (Some sg)
    define sv3 where "sv3 = ConfigHeader sv2 flds ?sz sg"
    have b3: "Slice sv3 = Iface (PtrTo (SliceOf (StructOf n flds))) a"
      and f3: "Heap sv3 = Heap sv" "builtSlice sv3 = Slice sv" "builtSize sv3 = int ?sz"
        "Values sv3 = replicate ?nfld (replicate ?sz None)" "Inactive sv3 = Inactive sv2"
      by (simp_all add: sv3_def ConfigHeader_fields b2 f2)
    obtain h cols where g3: "StructGrid sv3 =
        Some (GridParts h (replicate ((if Inactive sv2 then 1 + ?nfld else 1 + ?nfld + 2) * ?sz) None) cols)"
      using ConfigHeader_grid [of sv2 flds ?sz sg] by (auto simp: sv3_def)
    have "\<exists>ys. (if SortIdx sv3 \<ge> 0 then SortBound srt sv3 else Some sv3)
                 = Some (sv3\<lparr>Heap := (Heap sv3)(a := ys)\<rparr>) \<and> length ys = ?sz"
    proof (cases "SortIdx sv3 \<ge> 0")
      case True
      then show ?thesis
        using SortBound_ok [OF b3 b(2) c] by (simp add: f3)
    next
      case False
      then show ?thesis
        by (intro exI [of _ "Heap sv3 a"]) (simp add: f3)
    qed
    then obtain ys where s4: "(if SortIdx sv3 \<ge> 0 then SortBound srt sv3 else Some sv3)
                 = Some (sv3\<lparr>Heap := (Heap sv3)(a := ys)\<rparr>)" and ly: "length ys = ?sz"
      by blast
    define sv4 where "sv4 = sv3\<lparr>Heap := (Heap sv3)(a := ys)\<rparr>"
    have b4: "Slice sv4 = Iface (PtrTo (SliceOf (StructOf n flds))) a"
      and f4: "Heap sv4 a = ys" "builtSlice sv4 = Slice sv" "builtSize sv4 = int ?sz"
        "Values sv4 = replicate ?nfld (replicate ?sz None)" "Inactive sv4 = Inactive sv2"
        "StructGrid sv4 = StructGrid sv3"
      by (simp_all add: sv4_def b3 f3)
    obtain vals kids where rows: "ConfigSliceGridRows tvv sv4 = Some (SetKids (sv4\<lparr>Values := vals\<rparr>) kids)"
      using ConfigSliceGridRows_ok [OF b4 b(2), of h cols tvv]
      by (auto simp: f4 g3 ly)
    have "ConfigSliceGrid srt tvv sv = Some (SetKids (sv4\<lparr>Values := vals\<rparr>) kids)"
      unfolding unf Some using s4 rows
      by (auto simp: sv3_def [symmetric] sv4_def [symmetric] split: if_splits)
    then show ?thesis
      by (simp add: SetKids_fields b4 f4 b ly)
  qed
qed

text \<open>
  C7. On a view bound to a slice of structs, with a library sort that keeps its
  contract, \<^verbatim>\<open>ConfigSliceGrid\<close> returns, and \<^verbatim>\<open>ConfigSliceGrid\<close> called again on the
  view it left returns that view unchanged, in all its fields.
\<close>

theorem ConfigSliceGrid_twice:
  assumes "Slice sv = Iface (PtrTo (SliceOf (StructOf n flds))) a" and "a \<noteq> 0"
    and "sort_contract srt"
  shows "\<exists>sv'. ConfigSliceGrid srt tvv sv = Some sv' \<and> ConfigSliceGrid srt tvv sv' = Some sv'
           \<and> builtSlice sv' = Slice sv \<and> builtSize sv' = int (length (Heap sv' a))"
proof -
  obtain sv' where r: "ConfigSliceGrid srt tvv sv = Some sv'" and s: "Slice sv' = Slice sv"
    and bs: "builtSlice sv' = Slice sv'" and bz: "builtSize sv' = int (length (Heap sv' a))"
    using ConfigSliceGrid_built [OF assms] by blast
  have b': "Slice sv' = Iface (PtrTo (SliceOf (StructOf n flds))) a"
    using s assms(1) by simp
  have "ConfigSliceGrid srt tvv sv' = Some sv'"
    using bs bz by (simp add: ConfigSliceGrid_def b' SliceValue_bound [OF b' assms(2)])
  then show ?thesis
    using r s bs bz by auto
qed

theorem ConfigSliceGrid_twice_witness:
  "\<exists>sv'. ConfigSliceGrid insertionSort demoToValueView (StdConfig demoView) = Some sv'
         \<and> ConfigSliceGrid insertionSort demoToValueView sv' = Some sv'
         \<and> builtSlice sv' = Slice (StdConfig demoView) \<and> builtSize sv' = int (length (Heap sv' 1))"
proof -
  have b: "Slice (StdConfig demoView) = Iface (PtrTo (SliceOf (StructOf ''main.Rec'' demoFields))) 1"
    by (simp add: StdConfig_def demoView_def demoType_def)
  have n: "(1::nat) \<noteq> 0" by simp
  show ?thesis
    by (rule ConfigSliceGrid_twice [OF b n insertionSort_contract])
qed


subsection \<open>Binding a slice and sorting from the header\<close>

text \<open>
  C5. \<^verbatim>\<open>SetSlice\<close> on a view with sort field 0, descending, and row 0 selected. Given
  a pointer to a slice of integers it returns with the bound slice replaced by that
  pointer and the sort state reset; given a slice that is not behind a pointer it
  returns with the bound slice kept and the sort state reset. The selection index is
  kept in both.
\<close>

theorem SetSlice_failure_resets:
  "map_option (\<lambda>s. (Slice s, SortIdx s, SortDesc s, SelectedIdx s))
     (SetSlice insertionSort demoToValueView descView (Iface intSliceType 2) False)
     = Some (Iface intSliceType 2, -1, False, 0)
   \<and> map_option (\<lambda>s. (Slice s, SortIdx s, SortDesc s, SelectedIdx s))
     (SetSlice insertionSort demoToValueView descView (Iface (SliceOf (StructOf ''main.Rec'' demoFields)) 2) False)
     = Some (Iface demoType 1, -1, False, 0)
   \<and> (Slice descView, SortIdx descView, SortDesc descView, SelectedIdx descView)
     = (Iface demoType 1, 0, True, 0)"
  by (simp add: SetSlice_def descView_def browseView_def demoView_def demoType_def intSliceType_def
        StructType_def)


lemma descView_parts:
  "StructType descView = Some (StructOf ''main.Rec'' demoFields)"
  "GridOf descView = Some (GridParts demoHeader browseKids 4)"
  "SortIdx descView = 0" "SortDesc descView = True" "Inactive descView = True"
  "SliceValue descView = Some (rev demoSlice)"
  "TypeOf (Slice descView) = Some demoType"
  by (simp_all add: descView_def browseView_def demoView_def demoType_def StructType_def GridOf_def
        SliceValue_def)

lemma header_loop:
  "forM [0..<3] (SortHeaderStep 1 0) (True, True, demoHeader) =
     Some (True, True,
       [(NewWidget KiT_Label head_idx)\<lparr>Text := Str ''Index''\<rparr>,
        (NewWidget KiT_Action (head_fld ''ID''))\<lparr>Text := Str ''ID'', Icon := ''none'', Data := 0\<rparr>,
        (NewWidget KiT_Action (head_fld ''Name''))\<lparr>Text := Str ''Name'', Icon := ''widget-wedge-up'', Data := 1\<rparr>,
        (NewWidget KiT_Action (head_fld ''Score''))\<lparr>Text := Str ''Score'', Icon := ''none'', Data := 2\<rparr>])"
  by (simp add: upt_rec SortHeaderStep_def demoHeader_def NewWidget_def Let_def)

lemma browse_rows:
  "length xs = 2 \<Longrightarrow>
   \<exists>st. forM [0..<length xs] (ConfigRow demoToValueView True 3 xs) (vals, browseKids) = Some st"
  by (simp add: upt_rec ConfigRow_def ConfigCell_def browseKids_def browseLabel_def browseCell_def
        demoToValueView_def NewWidget_def Let_def)


text \<open>
  C2. \<^verbatim>\<open>SortSliceAction\<close> on field 1 of a view that sorts descending on field 0: the
  sort field becomes 1, the direction stays descending, the header action of field 1
  shows the ascending icon, and the sequence is sorted descending on field 1.
\<close>

theorem SortSliceAction_other_field_keeps_direction:
  "map_option (\<lambda>s. (SortIdx s, SortDesc s,
                      map Icon (case GridOf s of None \<Rightarrow> [] | Some g \<Rightarrow> Header g), Heap s 1))
     (SortSliceAction insertionSort demoToValueView descView 1)
   = Some (1, True, [[], ''none'', ''widget-wedge-up'', ''none''],
           [[IntV 1, StringV ''b'', FloatV (F64 3)], [IntV 2, StringV ''a'', FloatV (F64 1)]])"
proof -
  define hdr where "hdr =
       [(NewWidget KiT_Label head_idx)\<lparr>Text := Str ''Index''\<rparr>,
        (NewWidget KiT_Action (head_fld ''ID''))\<lparr>Text := Str ''ID'', Icon := ''none'', Data := 0\<rparr>,
        (NewWidget KiT_Action (head_fld ''Name''))\<lparr>Text := Str ''Name'', Icon := ''widget-wedge-up'', Data := 1\<rparr>,
        (NewWidget KiT_Action (head_fld ''Score''))\<lparr>Text := Str ''Score'', Icon := ''none'', Data := 2\<rparr>]"
  define sv1 where "sv1 = SetHeader (descView\<lparr>SortDesc := True, SortIdx := 1\<rparr>) hdr"
  define ys where "ys = [[IntV 1, StringV ''b'', FloatV (F64 3)], [IntV 2, StringV ''a'', FloatV (F64 1)]]"
  define sv2 where "sv2 = sv1\<lparr>Heap := (Heap sv1)(1 := ys)\<rparr>"
  have n: "NumField (StructOf ''main.Rec'' demoFields) = Some 3"
    by (simp add: NumField_def demoFields_def)
  have s1: "Slice sv1 = Iface demoType 1" "SortIdx sv1 = 1" "SortDesc sv1 = True"
    "Heap sv1 1 = rev demoSlice" "Inactive sv1 = True"
    "GridOf sv1 = Some (GridParts hdr browseKids 4)"
    by (simp_all add: sv1_def SetHeader_def descView_def browseView_def demoView_def GridOf_def)
  have sorted: "SortStructSlice insertionSort demoType (rev demoSlice) 1 False = Some (None, ys)"
    by (simp add: SortStructSlice_def demoType_def demoFields_def demoSlice_def sortLess_def
          insertionSort_def lessString_def ys_def)
  have sb: "SortBound insertionSort sv1 = Some sv2"
    using s1 sorted
    by (simp add: SortBound_def SliceValue_def SetSliceValue_def demoType_def sv2_def)
  have s2: "Slice sv2 = Iface demoType 1" "SortIdx sv2 = 1" "SortDesc sv2 = True"
    "Heap sv2 1 = ys" "Inactive sv2 = True" "GridOf sv2 = Some (GridParts hdr browseKids 4)"
    using s1 by (simp_all add: sv2_def GridOf_def)
  have "\<exists>st. forM [0..<length ys] (ConfigRow demoToValueView True 3 ys) (Values sv2, browseKids) = Some st"
    by (rule browse_rows) (simp add: ys_def)
  then obtain st where rows: "ConfigSliceGridRows demoToValueView sv2 = Some (SetKids (sv2\<lparr>Values := fst st\<rparr>) (snd st))"
    using s2 n by (auto simp: ConfigSliceGridRows_def SliceValue_def StructType_def demoType_def)
  have "SortSliceAction insertionSort demoToValueView descView 1
          = Some (SetKids (sv2\<lparr>Values := fst st\<rparr>) (snd st))"
    using header_loop [folded hdr_def] sb rows
    by (simp add: SortSliceAction_def descView_parts n sv1_def [symmetric])
  moreover have "GridOf (SetKids (sv2\<lparr>Values := fst st\<rparr>) (snd st))
                   = Some (GridParts hdr (snd st) 4)"
    using GridOf_SetKids [of "sv2\<lparr>Values := fst st\<rparr>" "GridParts hdr browseKids 4" "snd st"] s2(6)
    by (simp add: GridOf_def)
  ultimately show ?thesis
    using s2 by (simp add: SetKids_fields hdr_def NewWidget_def ys_def)
qed

end
